theory Spec2Isabelle
  imports Complex_Main "HOL-Library.Sublist" "HOL-Library.Log_Nat"
begin

section \<open>Go strings\<close>

text \<open>
  A Go string is a sequence of bytes: \<open>string\<close> (a \<open>char list\<close>) here. The library
  functions of package \<open>strings\<close> that the WHOIS client and the certificate inspector call
  are modelled on bytes; case folding and white space are the ASCII ones (a byte of a
  multi-byte UTF-8 sequence is neither a letter nor white space in this model).
\<close>

definition upper_letters :: string where
  "upper_letters = ''ABCDEFGHIJKLMNOPQRSTUVWXYZ''"

definition lower_letters :: string where
  "lower_letters = ''abcdefghijklmnopqrstuvwxyz''"

definition lower_byte :: "char \<Rightarrow> char" where
  "lower_byte c = (case map_of (zip upper_letters lower_letters) c of Some d \<Rightarrow> d | None \<Rightarrow> c)"

text \<open>\<open>strings.ToLower\<close>.\<close>

definition ToLower :: "string \<Rightarrow> string" where
  "ToLower s = map lower_byte s"

text \<open>\<open>strings.EqualFold\<close>: equality under case folding, byte by byte.\<close>

fun EqualFold :: "string \<Rightarrow> string \<Rightarrow> bool" where
  "EqualFold [] [] = True"
| "EqualFold (a # s) (b # t) = ((a = b \<or> lower_byte a = lower_byte b) \<and> EqualFold s t)"
| "EqualFold _ _ = False"

text \<open>\<open>strings.HasPrefix\<close> and \<open>strings.HasSuffix\<close>.\<close>

definition HasPrefix :: "string \<Rightarrow> string \<Rightarrow> bool" where
  "HasPrefix s p = (length p \<le> length s \<and> take (length p) s = p)"

definition HasSuffix :: "string \<Rightarrow> string \<Rightarrow> bool" where
  "HasSuffix s x = (length x \<le> length s \<and> drop (length s - length x) s = x)"

text \<open>The white space that \<open>strings.TrimSpace\<close> removes: tab, line feed, vertical tab,
  form feed, carriage return and space.\<close>

definition isSpace :: "char \<Rightarrow> bool" where
  "isSpace c = (c \<in> set [CHR 0x09, CHR 0x0A, CHR 0x0B, CHR 0x0C, CHR 0x0D, CHR '' ''])"

definition TrimSpace :: "string \<Rightarrow> string" where
  "TrimSpace s = rev (dropWhile isSpace (rev (dropWhile isSpace s)))"

text \<open>\<open>strings.Split(s, sep)\<close> for a separator of one byte: the pieces between the
  separators, one more than there are separators.\<close>

fun Split :: "string \<Rightarrow> char \<Rightarrow> string list" where
  "Split [] sep = [[]]"
| "Split (c # s) sep =
     (if c = sep then [] # Split s sep
      else (case Split s sep of p # ps \<Rightarrow> (c # p) # ps | [] \<Rightarrow> [[c]]))"

section \<open>Instants of time\<close>

text \<open>
  A \<open>time.Time\<close> is an instant with nanosecond precision and a location. The instant is
  kept as Go keeps it, in seconds since January 1 of year 1, 00:00:00 UTC, with the
  nanoseconds within the second; the location is kept as its offset east of UTC in
  seconds. The zero value \<open>time.Time{}\<close> is that epoch in UTC.
\<close>

record Time =
  sec :: int
  nsec :: int
  zone :: int

definition zeroTime :: Time where
  "zeroTime = \<lparr>sec = 0, nsec = 0, zone = 0\<rparr>"

definition IsZero :: "Time \<Rightarrow> bool" where
  "IsZero t = (sec t = 0 \<and> nsec t = 0)"

definition After :: "Time \<Rightarrow> Time \<Rightarrow> bool" where
  "After t u = (sec t > sec u \<or> (sec t = sec u \<and> nsec t > nsec u))"

definition Before :: "Time \<Rightarrow> Time \<Rightarrow> bool" where
  "Before t u = (sec t < sec u \<or> (sec t = sec u \<and> nsec t < nsec u))"

section \<open>Parsing dates: \<open>time.Parse\<close>\<close>

text \<open>
  \<open>parseDate\<close> calls \<open>time.Parse\<close> of the Go library with eight layouts. The model
  follows the library: the layout is cut into literal text and standard elements
  (\<open>nextStdChunk\<close>), the value is consumed element by element, the day is validated
  against the month, and \<open>Date\<close> turns the civil fields into an instant.
\<close>

definition isDigit :: "char \<Rightarrow> bool" where
  "isDigit c = (c \<in> set ''0123456789'')"

definition digitVal :: "char \<Rightarrow> int" where
  "digitVal c = int (of_char c) - 48"

text \<open>The standard elements that occur in the layouts of \<open>parseDate\<close>.\<close>

datatype chunk =
    Lit string
  | stdLongYear
  | stdZeroMonth
  | stdMonth
  | stdLongMonth
  | stdDay
  | stdZeroDay
  | stdHour
  | stdZeroMinute
  | stdZeroSecond
  | stdISO8601ColonTZ

text \<open>
  \<open>stdAt layout\<close>: the standard element that starts at the head of \<open>layout\<close>, with its
  length. These are the cases of \<open>nextStdChunk\<close> that the layouts of \<open>parseDate\<close> reach:
  \<open>January\<close> and \<open>Jan\<close>, \<open>01\<close>, \<open>02\<close>, \<open>04\<close>, \<open>05\<close>, \<open>15\<close>, \<open>2006\<close> and \<open>2\<close>, and \<open>Z07:00\<close>.
\<close>

definition startsWithLowerCase :: "string \<Rightarrow> bool" where
  "startsWithLowerCase s = (case s of [] \<Rightarrow> False | c # _ \<Rightarrow> c \<in> set lower_letters)"

definition stdAt :: "string \<Rightarrow> (chunk \<times> nat) option" where
  "stdAt layout =
     (if HasPrefix layout ''January'' then Some (stdLongMonth, 7)
      else if HasPrefix layout ''Jan'' \<and> \<not> startsWithLowerCase (drop 3 layout)
        then Some (stdMonth, 3)
      else if HasPrefix layout ''01'' then Some (stdZeroMonth, 2)
      else if HasPrefix layout ''02'' then Some (stdZeroDay, 2)
      else if HasPrefix layout ''04'' then Some (stdZeroMinute, 2)
      else if HasPrefix layout ''05'' then Some (stdZeroSecond, 2)
      else if HasPrefix layout ''15'' then Some (stdHour, 2)
      else if HasPrefix layout ''2006'' then Some (stdLongYear, 4)
      else if HasPrefix layout ''2'' then Some (stdDay, 1)
      else if HasPrefix layout ''Z07:00'' then Some (stdISO8601ColonTZ, 6)
      else None)"

text \<open>
  \<open>chunks layout lit\<close>: the whole layout cut into elements; \<open>lit\<close> is the literal
  prefix read so far, in reverse.
\<close>

function chunks :: "string \<Rightarrow> string \<Rightarrow> chunk list" where
  "chunks [] lit = (if lit = [] then [] else [Lit (rev lit)])"
| "chunks (c # layout) lit =
     (case stdAt (c # layout) of
        Some (std, n) \<Rightarrow>
          (if lit = [] then [] else [Lit (rev lit)]) @ std # chunks (drop (n - 1) layout) []
      | None \<Rightarrow> chunks layout (c # lit))"
  by pat_completeness auto
termination
  by (relation "measure (\<lambda>(layout, lit). length layout)") auto

declare chunks.simps [simp del]

text \<open>\<open>skip\<close>: the value must start with the literal text; a space of the layout stands
  for any run of spaces, also an empty one at the end of the value.\<close>

definition cutspace :: "string \<Rightarrow> string" where
  "cutspace s = dropWhile (\<lambda>c. c = CHR '' '') s"

function skip :: "string \<Rightarrow> string \<Rightarrow> string option" where
  "skip val [] = Some val"
| "skip val (p # pre) =
     (if p = CHR '' '' then
        (if val \<noteq> [] \<and> hd val \<noteq> CHR '' '' then None
         else skip (cutspace val) (cutspace (p # pre)))
      else (case val of [] \<Rightarrow> None
            | v # val' \<Rightarrow> if v \<noteq> p then None else skip val' pre))"
  by pat_completeness auto
termination
proof (relation "measure (\<lambda>(val, pre). length pre)")
  show "wf (measure (\<lambda>(val, pre). length pre))" by simp
next
  fix val :: string and p :: char and pre :: string
  assume "p = CHR '' ''"
  then have "length (cutspace (p # pre)) \<le> length pre"
    by (simp add: cutspace_def length_dropWhile_le)
  then show "((cutspace val, cutspace (p # pre)), val, p # pre)
        \<in> measure (\<lambda>(val, pre). length pre)"
    by simp
next
  fix val :: string and p :: char and pre x21 x22
  show "((x22, pre), val, p # pre) \<in> measure (\<lambda>(val, pre). length pre)"
    by simp
qed

text \<open>\<open>getnum\<close>: a number of one or two digits; exactly two when \<open>fixed\<close>.\<close>

definition getnum :: "string \<Rightarrow> bool \<Rightarrow> (int \<times> string) option" where
  "getnum s fixed =
     (case s of
        [] \<Rightarrow> None
      | a # s1 \<Rightarrow>
          if \<not> isDigit a then None
          else (case s1 of
                  [] \<Rightarrow> if fixed then None else Some (digitVal a, s1)
                | b # s2 \<Rightarrow>
                    if \<not> isDigit b then (if fixed then None else Some (digitVal a, s1))
                    else Some (digitVal a * 10 + digitVal b, s2)))"

text \<open>The decimal value of a string of digits (\<open>atoi\<close> on text without a sign).\<close>

definition digitsVal :: "string \<Rightarrow> int" where
  "digitsVal s = foldl (\<lambda>n c. n * 10 + digitVal c) 0 s"

definition shortMonthNames :: "string list" where
  "shortMonthNames = [''Jan'', ''Feb'', ''Mar'', ''Apr'', ''May'', ''Jun'',
                      ''Jul'', ''Aug'', ''Sep'', ''Oct'', ''Nov'', ''Dec'']"

definition longMonthNames :: "string list" where
  "longMonthNames = [''January'', ''February'', ''March'', ''April'', ''May'', ''June'',
                     ''July'', ''August'', ''September'', ''October'', ''November'',
                     ''December'']"

text \<open>\<open>lookup\<close>: the index of the first name of the table that the value starts with,
  letters compared without case.\<close>

fun lookup :: "string list \<Rightarrow> string \<Rightarrow> int \<Rightarrow> (int \<times> string) option" where
  "lookup [] val i = None"
| "lookup (v # tab) val i =
     (if length val \<ge> length v \<and> EqualFold (take (length v) val) v
      then Some (i, drop (length v) val)
      else lookup tab val (i + 1))"

text \<open>The fields that \<open>Parse\<close> collects, with the defaults it starts from.\<close>

record parsed =
  p_year :: int
  p_month :: int
  p_day :: int
  p_hour :: int
  p_min :: int
  p_sec :: int
  p_nsec :: int
  p_utc :: bool
  p_zoneOffset :: int

definition parsed0 :: parsed where
  "parsed0 = \<lparr>p_year = 0, p_month = - 1, p_day = - 1, p_hour = 0, p_min = 0, p_sec = 0,
              p_nsec = 0, p_utc = False, p_zoneOffset = - 1\<rparr>"

definition commaOrPeriod :: "char \<Rightarrow> bool" where
  "commaOrPeriod c = (c = CHR ''.'' \<or> c = CHR '','')"

text \<open>\<open>parseNanoseconds\<close> on a fraction of \<open>n - 1\<close> digits after the separator: at most
  nine digits count, scaled to nanoseconds.\<close>

definition parseNanoseconds :: "string \<Rightarrow> int" where
  "parseNanoseconds digits =
     (let ds = take 9 digits in digitsVal ds * 10 ^ (9 - length ds))"

text \<open>One standard element: the rest of the value and the updated fields, or no parse.\<close>

fun parseStd :: "chunk \<Rightarrow> string \<Rightarrow> parsed \<Rightarrow> (string \<times> parsed) option" where
  "parseStd (Lit pre) val st =
     (case skip val pre of None \<Rightarrow> None | Some val' \<Rightarrow> Some (val', st))"
| "parseStd stdLongYear val st =
     (if length val < 4 \<or> \<not> isDigit (hd val) then None
      else if \<not> list_all isDigit (take 4 val) then None
      else Some (drop 4 val, st\<lparr>p_year := digitsVal (take 4 val)\<rparr>))"
| "parseStd stdMonth val st =
     (case lookup shortMonthNames val 0 of None \<Rightarrow> None
      | Some (m, val') \<Rightarrow> Some (val', st\<lparr>p_month := m + 1\<rparr>))"
| "parseStd stdLongMonth val st =
     (case lookup longMonthNames val 0 of None \<Rightarrow> None
      | Some (m, val') \<Rightarrow> Some (val', st\<lparr>p_month := m + 1\<rparr>))"
| "parseStd stdZeroMonth val st =
     (case getnum val True of None \<Rightarrow> None
      | Some (m, val') \<Rightarrow>
          if m \<le> 0 \<or> 12 < m then None else Some (val', st\<lparr>p_month := m\<rparr>))"
| "parseStd stdDay val st =
     (case getnum val False of None \<Rightarrow> None
      | Some (d, val') \<Rightarrow> Some (val', st\<lparr>p_day := d\<rparr>))"
| "parseStd stdZeroDay val st =
     (case getnum val True of None \<Rightarrow> None
      | Some (d, val') \<Rightarrow> Some (val', st\<lparr>p_day := d\<rparr>))"
| "parseStd stdHour val st =
     (case getnum val False of None \<Rightarrow> None
      | Some (h, val') \<Rightarrow>
          if h < 0 \<or> 24 \<le> h then None else Some (val', st\<lparr>p_hour := h\<rparr>))"
| "parseStd stdZeroMinute val st =
     (case getnum val True of None \<Rightarrow> None
      | Some (m, val') \<Rightarrow>
          if m < 0 \<or> 60 \<le> m then None else Some (val', st\<lparr>p_min := m\<rparr>))"
| "parseStd stdZeroSecond val st =
     (case getnum val True of None \<Rightarrow> None
      | Some (s, val') \<Rightarrow>
          if s < 0 \<or> 60 \<le> s then None
          else if length val' \<ge> 2 \<and> commaOrPeriod (hd val') \<and> isDigit (val' ! 1) then
            (let digits = takeWhile isDigit (tl val')
             in Some (drop (length digits) (tl val'),
                      st\<lparr>p_sec := s, p_nsec := parseNanoseconds digits\<rparr>))
          else Some (val', st\<lparr>p_sec := s\<rparr>))"
| "parseStd stdISO8601ColonTZ val st =
     (if length val \<ge> 1 \<and> hd val = CHR ''Z'' then Some (tl val, st\<lparr>p_utc := True\<rparr>)
      else if length val < 6 then None
      else if val ! 3 \<noteq> CHR '':'' then None
      else (case getnum (take 2 (drop 1 val)) True of None \<Rightarrow> None
            | Some (hr, _) \<Rightarrow>
              (case getnum (take 2 (drop 4 val)) True of None \<Rightarrow> None
               | Some (mm, _) \<Rightarrow>
                   if hr > 24 \<or> mm > 60 then None
                   else if hd val = CHR ''+'' then
                     Some (drop 6 val, st\<lparr>p_zoneOffset := (hr * 60 + mm) * 60\<rparr>)
                   else if hd val = CHR ''-'' then
                     Some (drop 6 val, st\<lparr>p_zoneOffset := - ((hr * 60 + mm) * 60)\<rparr>)
                   else None)))"

text \<open>The loop of \<open>Parse\<close> over the elements; text left over at the end is an error.\<close>

fun parseChunks :: "chunk list \<Rightarrow> string \<Rightarrow> parsed \<Rightarrow> parsed option" where
  "parseChunks [] val st = (if val \<noteq> [] then None else Some st)"
| "parseChunks (c # cs) val st =
     (case parseStd c val st of None \<Rightarrow> None
      | Some (val', st') \<Rightarrow> parseChunks cs val' st')"

definition isLeap :: "int \<Rightarrow> bool" where
  "isLeap y = (y mod 4 = 0 \<and> (y mod 100 \<noteq> 0 \<or> y mod 400 = 0))"

definition daysBefore :: "int list" where
  "daysBefore = [0, 31, 59, 90, 120, 151, 181, 212, 243, 273, 304, 334, 365]"

definition daysIn :: "int \<Rightarrow> int \<Rightarrow> int" where
  "daysIn m y =
     (if m = 2 \<and> isLeap y then 29
      else daysBefore ! nat m - daysBefore ! nat (m - 1))"

text \<open>
  \<open>Date\<close> for fields in range: the seconds since January 1 of year 1, 00:00:00 UTC, of
  the civil time \<open>y-m-d h:mi:s\<close> read in a zone \<open>off\<close> seconds east of UTC.
\<close>

definition daysSinceEpoch :: "int \<Rightarrow> int \<Rightarrow> int \<Rightarrow> int" where
  "daysSinceEpoch y m d =
     365 * (y - 1) + (y - 1) div 4 - (y - 1) div 100 + (y - 1) div 400
     + daysBefore ! nat (m - 1) + (if isLeap y \<and> m > 2 then 1 else 0) + (d - 1)"

definition Date :: "int \<Rightarrow> int \<Rightarrow> int \<Rightarrow> int \<Rightarrow> int \<Rightarrow> int \<Rightarrow> int \<Rightarrow> int \<Rightarrow> Time" where
  "Date y m d h mi s ns off =
     \<lparr>sec = daysSinceEpoch y m d * 86400 + h * 3600 + mi * 60 + s - off,
      nsec = ns, zone = off\<rparr>"

text \<open>The end of \<open>Parse\<close>: defaults for a missing month and day, the day checked against
  the month, and the instant in UTC or in the zone that the value named.\<close>

definition finishParse :: "parsed \<Rightarrow> Time option" where
  "finishParse st =
     (let month = (if p_month st < 0 then 1 else p_month st);
          day = (if p_day st < 0 then 1 else p_day st)
      in if day < 1 \<or> day > daysIn month (p_year st) then None
         else if p_utc st then
           Some (Date (p_year st) month day (p_hour st) (p_min st) (p_sec st) (p_nsec st) 0)
         else if p_zoneOffset st \<noteq> - 1 then
           Some (Date (p_year st) month day (p_hour st) (p_min st) (p_sec st) (p_nsec st)
                  (p_zoneOffset st))
         else
           Some (Date (p_year st) month day (p_hour st) (p_min st) (p_sec st) (p_nsec st) 0))"

definition Parse :: "string \<Rightarrow> string \<Rightarrow> Time option" where
  "Parse layout val =
     (case parseChunks (chunks layout []) val parsed0 of
        None \<Rightarrow> None
      | Some st \<Rightarrow> finishParse st)"

section \<open>\<open>parseDate\<close>\<close>

definition formats :: "string list" where
  "formats =
     [''2006-01-02T15:04:05Z07:00'',
      ''2006-01-02T15:04:05Z'',
      ''2006-01-02 15:04:05'',
      ''2006-01-02'',
      ''02-Jan-2006'',
      ''January 02 2006'',
      ''2-Jan-2006'',
      ''2006/01/02'']"

text \<open>The loop of \<open>parseDate\<close> over the layouts: the first that parses is returned, the
  zero time when none does.\<close>

fun tryFormats :: "string list \<Rightarrow> string \<Rightarrow> Time" where
  "tryFormats [] dateStr = zeroTime"
| "tryFormats (format # rest) dateStr =
     (case Parse format dateStr of
        Some date \<Rightarrow> date
      | None \<Rightarrow> tryFormats rest dateStr)"

definition parseDate :: "string \<Rightarrow> Time" where
  "parseDate dateStr = tryFormats formats (TrimSpace dateStr)"

section \<open>Formatting dates: \<open>Time.Format\<close>\<close>

text \<open>
  The round trip of \<open>parseDate\<close> is stated against \<open>Time.Format\<close> of the Go library,
  on the civil fields of a time: year, month, day, hour, minute, second and the offset
  of its zone east of UTC in seconds.
\<close>

record civil =
  c_year :: int
  c_month :: int
  c_day :: int
  c_hour :: int
  c_min :: int
  c_sec :: int
  c_off :: int

definition civilTime :: "civil \<Rightarrow> Time" where
  "civilTime c = Date (c_year c) (c_month c) (c_day c) (c_hour c) (c_min c) (c_sec c) 0 (c_off c)"

definition digitChar :: "int \<Rightarrow> char" where
  "digitChar n = ''0123456789'' ! nat n"

text \<open>The decimal digits of a number that is not negative.\<close>

function digitsOf :: "int \<Rightarrow> string" where
  "digitsOf n = (if n < 10 then [digitChar n] else digitsOf (n div 10) @ [digitChar (n mod 10)])"
  by pat_completeness auto
termination
  by (relation "measure nat") auto

declare digitsOf.simps [simp del]

text \<open>\<open>appendInt\<close>: the number in decimal, padded with zeros to the width.\<close>

definition padInt :: "int \<Rightarrow> nat \<Rightarrow> string" where
  "padInt u width = (let ds = digitsOf u in replicate (width - length ds) (CHR ''0'') @ ds)"

definition appendInt :: "int \<Rightarrow> nat \<Rightarrow> string" where
  "appendInt x width = (if x < 0 then CHR ''-'' # padInt (- x) width else padInt x width)"

text \<open>Go's integer division, which truncates toward zero.\<close>

definition quo :: "int \<Rightarrow> int \<Rightarrow> int" where
  "quo a b = sgn a * sgn b * (\<bar>a\<bar> div \<bar>b\<bar>)"

definition formatZone :: "int \<Rightarrow> string" where
  "formatZone off =
     (if off = 0 then ''Z''
      else let zone = quo off 60
           in (if zone < 0
               then CHR ''-'' # appendInt (quo (- zone) 60) 2 @ '':'' @ appendInt ((- zone) mod 60) 2
               else CHR ''+'' # appendInt (quo zone 60) 2 @ '':'' @ appendInt (zone mod 60) 2))"

fun formatStd :: "chunk \<Rightarrow> civil \<Rightarrow> string" where
  "formatStd (Lit l) c = l"
| "formatStd stdLongYear c = appendInt (c_year c) 4"
| "formatStd stdZeroMonth c = appendInt (c_month c) 2"
| "formatStd stdMonth c = take 3 (longMonthNames ! nat (c_month c - 1))"
| "formatStd stdLongMonth c = longMonthNames ! nat (c_month c - 1)"
| "formatStd stdDay c = appendInt (c_day c) 0"
| "formatStd stdZeroDay c = appendInt (c_day c) 2"
| "formatStd stdHour c = appendInt (c_hour c) 2"
| "formatStd stdZeroMinute c = appendInt (c_min c) 2"
| "formatStd stdZeroSecond c = appendInt (c_sec c) 2"
| "formatStd stdISO8601ColonTZ c = formatZone (c_off c)"

definition Format :: "string \<Rightarrow> civil \<Rightarrow> string" where
  "Format layout c = concat (map (\<lambda>ch. formatStd ch c) (chunks layout []))"

text \<open>
  A civil time is representable in a layout when its fields are in range (a year of four
  digits, a day of the month, an offset of whole minutes of less than a day) and the
  fields that the layout does not print are zero.
\<close>

definition validCivil :: "civil \<Rightarrow> bool" where
  "validCivil c =
     (0 \<le> c_year c \<and> c_year c \<le> 9999 \<and> 1 \<le> c_month c \<and> c_month c \<le> 12 \<and>
      1 \<le> c_day c \<and> c_day c \<le> daysIn (c_month c) (c_year c) \<and>
      0 \<le> c_hour c \<and> c_hour c < 24 \<and> 0 \<le> c_min c \<and> c_min c < 60 \<and>
      0 \<le> c_sec c \<and> c_sec c < 60 \<and>
      c_off c mod 60 = 0 \<and> - 86400 < c_off c \<and> c_off c < 86400)"

definition representable :: "string \<Rightarrow> civil \<Rightarrow> bool" where
  "representable layout c =
     (validCivil c \<and>
      (stdHour \<notin> set (chunks layout []) \<longrightarrow> c_hour c = 0 \<and> c_min c = 0 \<and> c_sec c = 0) \<and>
      (stdISO8601ColonTZ \<notin> set (chunks layout []) \<longrightarrow> c_off c = 0))"

section \<open>Regular expressions\<close>

text \<open>
  The patterns of \<open>parseWhoisResponse\<close> are built from literal text (matched without
  case under the flag \<open>(?i)\<close>; letters fold as ASCII), greedy repetitions of a character
  class (\<open>\s*\<close>, \<open>.*\<close>, \<open>.+\<close>), alternatives, an optional part and capture groups. Go's
  \<open>regexp\<close> returns the match that a backtracking search finds first: the leftmost
  start, the first alternative that leads to a match, the longest repetition that leads
  to a match. \<open>matchK\<close> is that search; its first argument is the rest of the pattern
  that is still to be matched, where \<open>KClose i s0\<close> closes the group \<open>i\<close> that was opened
  when the input was \<open>s0\<close>.
\<close>

datatype re =
    RLit string
  | RStar "char \<Rightarrow> bool"
  | RPlus "char \<Rightarrow> bool"
  | RAlt re re
  | RCat re re
  | ROpt re
  | RGroup nat re

datatype kont = KRe re | KClose nat string

type_synonym captures = "nat \<Rightarrow> string option"

fun rsize :: "re \<Rightarrow> nat" where
  "rsize (RLit l) = 1"
| "rsize (RStar c) = 1"
| "rsize (RPlus c) = 1"
| "rsize (RAlt a b) = 1 + rsize a + rsize b"
| "rsize (RCat a b) = 1 + rsize a + rsize b"
| "rsize (ROpt a) = 1 + rsize a"
| "rsize (RGroup i a) = 2 + rsize a"

fun ksize :: "kont \<Rightarrow> nat" where
  "ksize (KRe r) = rsize r"
| "ksize (KClose i s0) = 1"

function matchK :: "kont list \<Rightarrow> string \<Rightarrow> captures \<Rightarrow> (string \<times> captures) option" where
  "matchK [] s caps = Some (s, caps)"
| "matchK (KClose i s0 # k) s caps =
     matchK k s (caps(i \<mapsto> take (length s0 - length s) s0))"
| "matchK (KRe (RLit l) # k) s caps =
     (if length l \<le> length s \<and> EqualFold (take (length l) s) l
      then matchK k (drop (length l) s) caps else None)"
| "matchK (KRe (RStar c) # k) s caps =
     (case s of
        [] \<Rightarrow> matchK k s caps
      | x # s' \<Rightarrow>
          if c x then
            (case matchK (KRe (RStar c) # k) s' caps of
               Some r \<Rightarrow> Some r
             | None \<Rightarrow> matchK k s caps)
          else matchK k s caps)"
| "matchK (KRe (RPlus c) # k) s caps =
     (case s of
        [] \<Rightarrow> None
      | x # s' \<Rightarrow> if c x then matchK (KRe (RStar c) # k) s' caps else None)"
| "matchK (KRe (RAlt a b) # k) s caps =
     (case matchK (KRe a # k) s caps of
        Some r \<Rightarrow> Some r
      | None \<Rightarrow> matchK (KRe b # k) s caps)"
| "matchK (KRe (RCat a b) # k) s caps = matchK (KRe a # KRe b # k) s caps"
| "matchK (KRe (ROpt a) # k) s caps =
     (case matchK (KRe a # k) s caps of
        Some r \<Rightarrow> Some r
      | None \<Rightarrow> matchK k s caps)"
| "matchK (KRe (RGroup i a) # k) s caps = matchK (KRe a # KClose i s # k) s caps"
  by pat_completeness auto
termination
  by (relation "measures [\<lambda>(k, s, caps). length s, \<lambda>(k, s, caps). sum_list (map ksize k)]")
     auto

text \<open>The leftmost match: the search is tried at every start, from the left.\<close>

fun searchFrom :: "re \<Rightarrow> string \<Rightarrow> (string \<times> captures) option" where
  "searchFrom r [] =
     (case matchK [KRe r] [] Map.empty of
        Some (rest, caps) \<Rightarrow> Some ([], caps)
      | None \<Rightarrow> None)"
| "searchFrom r (x # s) =
     (case matchK [KRe r] (x # s) Map.empty of
        Some (rest, caps) \<Rightarrow> Some (take (length (x # s) - length rest) (x # s), caps)
      | None \<Rightarrow> searchFrom r s)"

text \<open>
  \<open>FindStringSubmatch\<close> for a pattern with \<open>n\<close> groups: no match is \<open>None\<close> (the nil
  slice, of length 0); a match is the matched text followed by the text of each group,
  empty for a group that took no part.
\<close>

definition FindStringSubmatch :: "re \<Rightarrow> nat \<Rightarrow> string \<Rightarrow> string list option" where
  "FindStringSubmatch r n s =
     (case searchFrom r s of
        None \<Rightarrow> None
      | Some (whole, caps) \<Rightarrow>
          Some (whole # map (\<lambda>i. case caps i of None \<Rightarrow> [] | Some t \<Rightarrow> t) [1 ..< Suc n]))"

text \<open>The classes \<open>\s\<close> (tab, line feed, form feed, carriage return, space) and \<open>.\<close>
  (any character but the line feed).\<close>

definition reSpace :: "char \<Rightarrow> bool" where
  "reSpace c = (c \<in> set [CHR 0x09, CHR 0x0A, CHR 0x0C, CHR 0x0D, CHR '' ''])"

definition reDot :: "char \<Rightarrow> bool" where
  "reDot c = (c \<noteq> CHR 0x0A)"

text \<open>The tail \<open>:\s*(.+)\<close> that every pattern ends with, the value in group \<open>g\<close>.\<close>

definition valueTail :: "string \<Rightarrow> nat \<Rightarrow> re" where
  "valueTail label g = RCat (RLit label) (RCat (RStar reSpace) (RGroup g (RPlus reDot)))"

definition re_registrar :: re where
  \<comment> \<open>\<open>(?i)registrar:\s*(.+)\<close>\<close>
  "re_registrar = valueTail ''registrar:'' 1"

definition re_creation_date :: re where
  \<comment> \<open>\<open>(?i)(creation date|created|registered):\s*(.+)\<close>\<close>
  "re_creation_date =
     RCat (RGroup 1 (RAlt (RLit ''creation date'') (RAlt (RLit ''created'') (RLit ''registered''))))
          (valueTail '':'' 2)"

definition re_expiration_date :: re where
  \<comment> \<open>\<open>(?i)(expir|expires).*:\s*(.+)\<close>\<close>
  "re_expiration_date =
     RCat (RGroup 1 (RAlt (RLit ''expir'') (RLit ''expires'')))
          (RCat (RStar reDot) (valueTail '':'' 2))"

definition re_updated_date :: re where
  \<comment> \<open>\<open>(?i)(updated|last updated|modified).*:\s*(.+)\<close>\<close>
  "re_updated_date =
     RCat (RGroup 1 (RAlt (RLit ''updated'') (RAlt (RLit ''last updated'') (RLit ''modified''))))
          (RCat (RStar reDot) (valueTail '':'' 2))"

definition re_name_server :: re where
  \<comment> \<open>\<open>(?i)name server:\s*(.+)\<close>\<close>
  "re_name_server = valueTail ''name server:'' 1"

definition re_status :: re where
  \<comment> \<open>\<open>(?i)(domain )?status:\s*(.+)\<close>\<close>
  "re_status = RCat (ROpt (RGroup 1 (RLit ''domain ''))) (valueTail ''status:'' 2)"

definition re_registrant_org :: re where
  \<comment> \<open>\<open>(?i)registrant.*organization:\s*(.+)\<close>\<close>
  "re_registrant_org =
     RCat (RLit ''registrant'') (RCat (RStar reDot) (valueTail ''organization:'' 1))"

definition re_registrant_email :: re where
  \<comment> \<open>\<open>(?i)registrant.*email:\s*(.+)\<close>\<close>
  "re_registrant_email =
     RCat (RLit ''registrant'') (RCat (RStar reDot) (valueTail ''email:'' 1))"

definition re_admin_email :: re where
  \<comment> \<open>\<open>(?i)admin.*email:\s*(.+)\<close>\<close>
  "re_admin_email = RCat (RLit ''admin'') (RCat (RStar reDot) (valueTail ''email:'' 1))"

definition re_tech_email :: re where
  \<comment> \<open>\<open>(?i)tech.*email:\s*(.+)\<close>\<close>
  "re_tech_email = RCat (RLit ''tech'') (RCat (RStar reDot) (valueTail ''email:'' 1))"

section \<open>Slices\<close>

text \<open>A Go slice is nil or holds a list of elements; \<open>append\<close> to nil allocates.\<close>

datatype 'a slice = NilSlice | Slice "'a list"

fun elems :: "'a slice \<Rightarrow> 'a list" where
  "elems NilSlice = []"
| "elems (Slice xs) = xs"

definition append1 :: "'a slice \<Rightarrow> 'a \<Rightarrow> 'a slice" where
  "append1 s x = Slice (elems s @ [x])"

section \<open>The WHOIS record and its parser\<close>

record WhoisInfo =
  Domain :: string
  Registrar :: string
  CreationDate :: Time
  ExpirationDate :: Time
  UpdatedDate :: Time
  NameServers :: "string slice"
  Status :: "string slice"
  RegistrantOrg :: string
  RegistrantEmail :: string
  AdminEmail :: string
  TechEmail :: string
  RawData :: string
  WhoisServer :: string
  QueryTime :: Time

text \<open>\<open>removeDuplicates\<close>: \<open>seen\<close> is the map of the items appended so far, \<open>result\<close>
  starts as the empty, non-nil slice.\<close>

fun removeDuplicates_loop :: "string list \<Rightarrow> (string \<Rightarrow> bool) \<Rightarrow> string list \<Rightarrow> string list" where
  "removeDuplicates_loop [] seen result = result"
| "removeDuplicates_loop (item # rest) seen result =
     (if \<not> seen item
      then removeDuplicates_loop rest (seen(item := True)) (result @ [item])
      else removeDuplicates_loop rest seen result)"

definition removeDuplicates :: "string slice \<Rightarrow> string slice" where
  "removeDuplicates slice = Slice (removeDuplicates_loop (elems slice) (\<lambda>_. False) [])"

text \<open>A single-valued text field: a match stores the trimmed group 1.\<close>

definition textField :: "string list option \<Rightarrow> string \<Rightarrow> string" where
  "textField m cur =
     (case m of Some match \<Rightarrow> if length match > 1 then TrimSpace (match ! 1) else cur
      | None \<Rightarrow> cur)"

text \<open>A date field: a match stores the date parsed from group 2 unless it is zero.\<close>

definition dateField :: "string list option \<Rightarrow> Time \<Rightarrow> Time" where
  "dateField m cur =
     (case m of
        Some match \<Rightarrow>
          if length match > 2
          then (let date = parseDate (match ! 2) in if \<not> IsZero date then date else cur)
          else cur
      | None \<Rightarrow> cur)"

text \<open>The body of the loop over the lines, in the order of the source.\<close>

definition processLine :: "WhoisInfo \<Rightarrow> string \<Rightarrow> WhoisInfo" where
  "processLine info line0 =
     (let line = TrimSpace line0 in
      if line = [] \<or> HasPrefix line ''%'' \<or> HasPrefix line ''#'' then info
      else
        let info = info\<lparr>Registrar :=
                     textField (FindStringSubmatch re_registrar 1 line) (Registrar info)\<rparr>;
            info = info\<lparr>CreationDate :=
                     dateField (FindStringSubmatch re_creation_date 2 line) (CreationDate info)\<rparr>;
            info = info\<lparr>ExpirationDate :=
                     dateField (FindStringSubmatch re_expiration_date 2 line)
                       (ExpirationDate info)\<rparr>;
            info = info\<lparr>UpdatedDate :=
                     dateField (FindStringSubmatch re_updated_date 2 line) (UpdatedDate info)\<rparr>;
            info = (case FindStringSubmatch re_name_server 1 line of
                      Some match \<Rightarrow>
                        if length match > 1
                        then info\<lparr>NameServers :=
                               append1 (NameServers info) (ToLower (TrimSpace (match ! 1)))\<rparr>
                        else info
                    | None \<Rightarrow> info);
            info = (case FindStringSubmatch re_status 2 line of
                      Some match \<Rightarrow>
                        if length match > 2
                        then info\<lparr>Status := append1 (Status info) (TrimSpace (match ! 2))\<rparr>
                        else info
                    | None \<Rightarrow> info);
            info = info\<lparr>RegistrantOrg :=
                     textField (FindStringSubmatch re_registrant_org 1 line)
                       (RegistrantOrg info)\<rparr>;
            info = info\<lparr>RegistrantEmail :=
                     textField (FindStringSubmatch re_registrant_email 1 line)
                       (RegistrantEmail info)\<rparr>;
            info = info\<lparr>AdminEmail :=
                     textField (FindStringSubmatch re_admin_email 1 line) (AdminEmail info)\<rparr>;
            info = info\<lparr>TechEmail :=
                     textField (FindStringSubmatch re_tech_email 1 line) (TechEmail info)\<rparr>
        in info)"

definition newWhoisInfo :: "string \<Rightarrow> string \<Rightarrow> string \<Rightarrow> WhoisInfo" where
  "newWhoisInfo domain rawData server =
     \<lparr>Domain = domain, Registrar = [], CreationDate = zeroTime, ExpirationDate = zeroTime,
      UpdatedDate = zeroTime, NameServers = NilSlice, Status = NilSlice,
      RegistrantOrg = [], RegistrantEmail = [], AdminEmail = [], TechEmail = [],
      RawData = rawData, WhoisServer = server, QueryTime = zeroTime\<rparr>"

definition parseLines :: "WhoisInfo \<Rightarrow> string list \<Rightarrow> WhoisInfo" where
  "parseLines info lines = foldl processLine info lines"

definition parseWhoisResponse :: "string \<Rightarrow> string \<Rightarrow> string \<Rightarrow> WhoisInfo" where
  "parseWhoisResponse domain rawData server =
     (let info = parseLines (newWhoisInfo domain rawData server) (Split rawData (CHR 0x0A))
      in info\<lparr>NameServers := removeDuplicates (NameServers info),
              Status := removeDuplicates (Status info)\<rparr>)"

section \<open>The WHOIS client\<close>

text \<open>
  What a WHOIS server does with a connection is an input of the model: the dial fails,
  the write of the query fails, the read fails, or the connection is closed after the
  lines that the scanner returned. The network maps the address dialled and the query
  written to that behaviour.
\<close>

datatype reply =
    DialFails string
  | WriteFails string
  | ReadFails string
  | Lines "string list"

type_synonym network = "string \<Rightarrow> string \<Rightarrow> reply"

datatype query_error =
    ConnectionFailed string
  | WriteFailed string
  | ReadFailed string
  | EmptyResponse

datatype whois_error =
    DomainEmpty
  | InvalidDomainFormat string
  | WhoisError string query_error string

text \<open>\<open>queryWhoisServer\<close>; \<open>now\<close> is the clock read after the parse.\<close>

definition queryWhoisServer :: "network \<Rightarrow> Time \<Rightarrow> string \<Rightarrow> string \<Rightarrow> query_error + WhoisInfo" where
  "queryWhoisServer net now domain server =
     (case net (server @ '':43'') (domain @ [CHR 0x0D, CHR 0x0A]) of
        DialFails e \<Rightarrow> Inl (ConnectionFailed e)
      | WriteFails e \<Rightarrow> Inl (WriteFailed e)
      | ReadFails e \<Rightarrow> Inl (ReadFailed e)
      | Lines ls \<Rightarrow>
          (let rawData = concat (map (\<lambda>l. l @ [CHR 0x0A]) ls) in
           if rawData = [] then Inl EmptyResponse
           else Inr ((parseWhoisResponse domain rawData server)\<lparr>QueryTime := now\<rparr>)))"

text \<open>\<open>WhoisServers\<close>, the table of the fallback servers of each top-level domain.\<close>

definition WhoisServers :: "(string \<times> string list) list" where
  "WhoisServers =
     [(''com'', [''whois.verisign-grs.com'', ''whois.markmonitor.com'']),
      (''net'', [''whois.verisign-grs.com'']),
      (''org'', [''whois.pir.org'']),
      (''info'', [''whois.afilias.net'']),
      (''biz'', [''whois.neulevel.biz'']),
      (''default'', [''whois.iana.org'', ''whois.internic.net''])]"

text \<open>Indexing the table: a key that is missing gives the nil slice, of length 0.\<close>

definition serversOf :: "string \<Rightarrow> string list" where
  "serversOf key = (case map_of WhoisServers key of Some servers \<Rightarrow> servers | None \<Rightarrow> [])"

text \<open>
  The loop of \<open>GetWhoisInfo\<close> over the candidate servers. The result is Go's pair of the
  record and the error (\<open>None\<close> for nil), together with the servers that were
  queried, in the order of the queries.
\<close>

fun tryServers ::
  "network \<Rightarrow> Time \<Rightarrow> string \<Rightarrow> string list \<Rightarrow> whois_error option \<Rightarrow> string list
     \<Rightarrow> (WhoisInfo option \<times> whois_error option) \<times> string list" where
  "tryServers net now domain [] lastErr queried = ((None, lastErr), queried)"
| "tryServers net now domain (server # rest) lastErr queried =
     (case queryWhoisServer net now domain server of
        Inl err \<Rightarrow>
          tryServers net now domain rest (Some (WhoisError domain err server))
            (queried @ [server])
      | Inr result \<Rightarrow> ((Some result, None), queried @ [server]))"

definition candidateServers :: "string \<Rightarrow> string list" where
  "candidateServers tld =
     (let servers = serversOf tld
      in if length servers = 0 then serversOf ''default'' else servers)"

definition GetWhoisInfo ::
  "network \<Rightarrow> Time \<Rightarrow> string
     \<Rightarrow> (WhoisInfo option \<times> whois_error option) \<times> string list" where
  "GetWhoisInfo net now domain0 =
     (let domain = ToLower (TrimSpace domain0) in
      if domain = [] then ((None, Some DomainEmpty), [])
      else
        let parts = Split domain (CHR ''.'') in
        if length parts < 2 then ((None, Some (InvalidDomainFormat domain)), [])
        else
          let tld = parts ! (length parts - 1);
              servers = candidateServers tld
          in tryServers net now domain servers None [])"

section \<open>Durations and floating point\<close>

text \<open>
  A \<open>time.Duration\<close> is a number of nanoseconds in 64 bits. \<open>Time.Sub\<close> computes the
  difference of two instants and saturates at the least and the greatest duration.
\<close>

definition Second :: int where "Second = 1000000000"
definition Hour :: int where "Hour = 3600 * Second"
definition maxDuration :: int where "maxDuration = 2 ^ 63 - 1"
definition minDuration :: int where "minDuration = - (2 ^ 63)"

definition Sub :: "Time \<Rightarrow> Time \<Rightarrow> int" where
  "Sub t u =
     (let d = (sec t - sec u) * Second + (nsec t - nsec u)
      in if d > maxDuration then maxDuration
         else if d < minDuration then minDuration
         else d)"

text \<open>\<open>time.Until(t)\<close> is \<open>t.Sub(time.Now())\<close>; \<open>now\<close> is the clock read by the call.\<close>

definition Until :: "Time \<Rightarrow> Time \<Rightarrow> int" where
  "Until t now = Sub t now"

text \<open>Go's remainder, with the sign of the dividend.\<close>

definition rem :: "int \<Rightarrow> int \<Rightarrow> int" where
  "rem a b = a - b * quo a b"

text \<open>
  A \<open>float64\<close> value is the rational number it denotes. \<open>float64 x\<close> is \<open>x\<close> rounded to
  the nearest number with a significand of 53 bits, ties to the even significand, as
  every conversion and arithmetic operation of Go rounds its exact result (the exponent
  range is not modelled: the values computed here are far from overflow and underflow).
  \<open>binexp x\<close> is the exponent \<open>e\<close> with \<open>2 ^ e \<le> x < 2 ^ (e + 1)\<close>.
\<close>

definition binexp :: "rat \<Rightarrow> int" where
  "binexp x =
     (let (p, q) = quotient_of x;
          e0 = bitlen p - bitlen q
      in if 2 powi e0 \<le> x then e0 else e0 - 1)"

definition roundEven :: "rat \<Rightarrow> int" where
  "roundEven x =
     (let f = \<lfloor>x\<rfloor>; r = x - of_int f
      in if r < 1 / 2 then f
         else if 1 / 2 < r then f + 1
         else if even f then f else f + 1)"

definition float64 :: "rat \<Rightarrow> rat" where
  "float64 x =
     (if x = 0 then 0
      else let u = 2 powi (binexp \<bar>x\<bar> - 52)
           in sgn x * (of_int (roundEven (\<bar>x\<bar> / u)) * u))"

text \<open>The conversion \<open>int(f)\<close> of a float to an integer discards the fraction.\<close>

definition toInt :: "rat \<Rightarrow> int" where
  "toInt x = (if 0 \<le> x then \<lfloor>x\<rfloor> else \<lceil>x\<rceil>)"

text \<open>\<open>Duration.Hours\<close>: the whole hours and the fraction of an hour, added as floats.\<close>

definition Hours :: "int \<Rightarrow> rat" where
  "Hours d =
     (let hour = quo d Hour;
          nsec = rem d Hour
      in float64 (float64 (of_int hour)
                  + float64 (float64 (of_int nsec) / float64 (60 * 60 * 1000000000))))"

section \<open>The certificate inspector\<close>

text \<open>The fields of \<open>x509.Certificate\<close> that the validator reads.\<close>

record Certificate =
  CommonName :: string
  DNSNames :: "string list"
  NotBefore :: Time
  NotAfter :: Time
  CRLDistributionPoints :: "string list"
  OCSPServer :: "string list"

text \<open>\<open>matchesDomain\<close>: the loop over the subject alternative names returns at the
  first name that matches.\<close>

fun matchesNames :: "string list \<Rightarrow> string \<Rightarrow> bool" where
  "matchesNames [] domain = False"
| "matchesNames (name # names) domain =
     (if EqualFold name domain then True
      else if HasPrefix name ''*.'' \<and>
              (let wildcard = drop 2 name
               in HasSuffix domain (''.'' @ wildcard) \<or> EqualFold domain wildcard)
           then True
      else matchesNames names domain)"

definition matchesDomain :: "Certificate \<Rightarrow> string \<Rightarrow> bool" where
  "matchesDomain cert domain =
     (if EqualFold (CommonName cert) domain then True
      else matchesNames (DNSNames cert) domain)"

text \<open>\<open>validateCertificate\<close>: every check appends its message; the clock is read twice,
  \<open>now1\<close> for the expiry check and \<open>now2\<close> for the not-yet-valid check.\<close>

definition validateCertificate :: "Time \<Rightarrow> Time \<Rightarrow> Certificate \<Rightarrow> string \<Rightarrow> string list" where
  "validateCertificate now1 now2 cert domain =
     (let errors = [];
          errors = (if After now1 (NotAfter cert)
                    then errors @ [''certificate has expired''] else errors);
          errors = (if Before now2 (NotBefore cert)
                    then errors @ [''certificate is not yet valid''] else errors);
          errors = (if \<not> matchesDomain cert domain
                    then errors @ [''certificate does not match domain''] else errors);
          errors = (if length (CRLDistributionPoints cert) = 0 \<and> length (OCSPServer cert) = 0
                    then errors @ [''no revocation checking mechanism available''] else errors)
      in errors)"

section \<open>\<open>GetSSLInfo\<close>\<close>

text \<open>
  The fields of \<open>SSLInfo\<close> that are computed from the validity window and the names of
  the certificate; the fields copied from the certificate and the session (issuer,
  subject, serial number, algorithms, key size, chain, protocol version, cipher suite)
  are left out.
\<close>

record SSLInfo =
  S_Domain :: string
  S_IsValid :: bool
  S_NotBefore :: Time
  S_NotAfter :: Time
  S_DaysUntilExpiry :: int
  S_SubjectAltNames :: "string list"
  S_IsWildcard :: bool
  S_ValidationErrors :: "string list"
  S_QueryTime :: Time

datatype ssl_error =
    SSLDomainEmpty
  | SSLDialError string string
  | SSLNoCertificates string

text \<open>What the TLS dial to an address gives: an error, or the certificates of the peer.\<close>

datatype tls_reply = TLSFails string | PeerCertificates "Certificate list"

text \<open>\<open>int(d.Hours() / 24)\<close> for a duration \<open>d\<close>, and for the duration until \<open>notAfter\<close>.\<close>

definition daysOf :: "int \<Rightarrow> int" where
  "daysOf d = toInt (float64 (Hours d / float64 24))"

definition daysUntilExpiry :: "Time \<Rightarrow> Time \<Rightarrow> int" where
  "daysUntilExpiry notAfter now = daysOf (Until notAfter now)"

text \<open>
  \<open>GetSSLInfo\<close>; \<open>clock n\<close> is the \<open>n\<close>-th reading of the clock after the handshake:
  reading 0 is the query time, reading 1 is taken by \<open>time.Until\<close>, reading 2 by the
  validity check, readings 3 and 4 by \<open>validateCertificate\<close>.
\<close>

definition GetSSLInfo ::
  "(string \<Rightarrow> tls_reply) \<Rightarrow> (nat \<Rightarrow> Time) \<Rightarrow> string \<Rightarrow> int list \<Rightarrow> ssl_error + SSLInfo" where
  "GetSSLInfo tls clock domain0 port =
     (let domain = ToLower (TrimSpace domain0) in
      if domain = [] then Inl SSLDomainEmpty
      else
        let targetPort = (if length port > 0 \<and> hd port > 0 then hd port else 443);
            address = domain @ '':'' @ appendInt targetPort 0
        in case tls address of
             TLSFails e \<Rightarrow> Inl (SSLDialError domain e)
           | PeerCertificates certs \<Rightarrow>
               (case certs of
                  [] \<Rightarrow> Inl (SSLNoCertificates domain)
                | cert # _ \<Rightarrow>
                    let days = daysUntilExpiry (NotAfter cert) (clock 1)
                    in Inr \<lparr>S_Domain = domain,
                            S_IsValid = (days > 0 \<and> After (clock 2) (NotBefore cert)),
                            S_NotBefore = NotBefore cert,
                            S_NotAfter = NotAfter cert,
                            S_DaysUntilExpiry = days,
                            S_SubjectAltNames = DNSNames cert,
                            S_IsWildcard = list_ex (\<lambda>name. HasPrefix name ''*.'') (DNSNames cert),
                            S_ValidationErrors =
                              validateCertificate (clock 3) (clock 4) cert domain,
                            S_QueryTime = clock 0\<rparr>))"

section \<open>The statements that the properties refer to\<close>

definition unparseable :: "string \<Rightarrow> bool" where
  "unparseable s = list_all (\<lambda>format. Parse format (TrimSpace s) = None) formats"

definition dateTextUnparseable :: "re \<Rightarrow> string \<Rightarrow> bool" where
  "dateTextUnparseable r line =
     (case FindStringSubmatch r 2 (TrimSpace line) of
        None \<Rightarrow> True
      | Some match \<Rightarrow> unparseable (match ! 2))"

definition unixEpoch :: Time where
  "unixEpoch = Date 1970 1 1 0 0 0 0 0"

text \<open>
  The rule of the claim C4. The names of a certificate are compared with the domain
  without regard to the case of the letters, and the clause on a name \<open>*.base\<close> says
  when such a name equals the domain in that sense: the domain equals \<open>base\<close>, or ends
  with \<open>.base\<close>, up to the case of the letters.
\<close>

definition spec_matchesDomain :: "Certificate \<Rightarrow> string \<Rightarrow> bool" where
  "spec_matchesDomain cert domain =
     (EqualFold (CommonName cert) domain \<or>
      (\<exists>name \<in> set (DNSNames cert). EqualFold name domain) \<or>
      (\<exists>name \<in> set (DNSNames cert). HasPrefix name ''*.'' \<and>
         (EqualFold domain (drop 2 name) \<or>
          HasSuffix (ToLower domain) (ToLower (''.'' @ drop 2 name)))))"

text \<open>
  The days until expiry as the claim C3 states them: the floor of the difference of
  \<open>notAfter\<close> and now in whole days.
\<close>

definition spec_daysUntilExpiry :: "Time \<Rightarrow> Time \<Rightarrow> int" where
  "spec_daysUntilExpiry notAfter now =
     ((sec notAfter - sec now) * Second + (nsec notAfter - nsec now)) div (24 * Hour)"

section \<open>Example inputs\<close>

definition two_name_servers :: string where
  "two_name_servers =
     ''Name Server: ns1.example.com'' @ [CHR 0x0A] @ ''Name Server: ns1.example.com'' @ [CHR 0x0A]"

definition third_answers :: network where
  "third_answers addr query =
     (if addr = ''c.example:43'' then Lines [''Registrar: Example Registrar'']
      else DialFails ''connection refused'')"

definition nobody_answers :: network where
  "nobody_answers addr query = DialFails ''connection refused''"

definition bad_dates :: string where
  "bad_dates =
     ''Creation Date: not a date'' @ [CHR 0x0A] @
     ''Registry Expiry Date: soon'' @ [CHR 0x0A] @
     ''Updated Date: 2024-13-45'' @ [CHR 0x0A]"

definition march_15 :: civil where
  "march_15 = \<lparr>c_year = 2024, c_month = 3, c_day = 15, c_hour = 0, c_min = 0, c_sec = 0,
               c_off = 0\<rparr>"

definition upper_wildcard_cert :: Certificate where
  "upper_wildcard_cert =
     \<lparr>CommonName = [], DNSNames = [''*.EXAMPLE.COM''],
      NotBefore = Date 2024 1 1 0 0 0 0 0, NotAfter = Date 2025 1 1 0 0 0 0 0,
      CRLDistributionPoints = [], OCSPServer = [''http://ocsp.example.com'']\<rparr>"

definition upper_name_cert :: Certificate where
  "upper_name_cert =
     \<lparr>CommonName = [], DNSNames = [''SUB.EXAMPLE.COM''],
      NotBefore = Date 2024 1 1 0 0 0 0 0, NotAfter = Date 2025 1 1 0 0 0 0 0,
      CRLDistributionPoints = [], OCSPServer = [''http://ocsp.example.com'']\<rparr>"

definition other_cert :: Certificate where
  "other_cert =
     \<lparr>CommonName = ''example.com'', DNSNames = [''*.example.com''],
      NotBefore = Date 2024 1 1 0 0 0 0 0, NotAfter = Date 2025 1 1 0 0 0 0 0,
      CRLDistributionPoints = [], OCSPServer = [''http://ocsp.example.com'']\<rparr>"

definition noon :: Time where
  "noon = Date 2024 3 15 12 0 0 0 0"

definition expired_at_midnight :: Certificate where
  "expired_at_midnight =
     \<lparr>CommonName = ''example.com'', DNSNames = [''example.com''],
      NotBefore = Date 2023 3 15 0 0 0 0 0, NotAfter = Date 2024 3 15 0 0 0 0 0,
      CRLDistributionPoints = [], OCSPServer = []\<rparr>"

definition serves_expired :: "string \<Rightarrow> tls_reply" where
  "serves_expired address = PeerCertificates [expired_at_midnight]"

definition clock_noon :: "nat \<Rightarrow> Time" where
  "clock_noon n = noon"

definition expired_info :: SSLInfo where
  "expired_info =
     \<lparr>S_Domain = ''example.com'', S_IsValid = False,
      S_NotBefore = Date 2023 3 15 0 0 0 0 0, S_NotAfter = Date 2024 3 15 0 0 0 0 0,
      S_DaysUntilExpiry = 0, S_SubjectAltNames = [''example.com''], S_IsWildcard = False,
      S_ValidationErrors =
        [''certificate has expired'', ''no revocation checking mechanism available''],
      S_QueryTime = noon\<rparr>"

definition serves_upper_wildcard :: "string \<Rightarrow> tls_reply" where
  "serves_upper_wildcard address = PeerCertificates [upper_wildcard_cert]"

definition mismatch_info :: SSLInfo where
  "mismatch_info =
     \<lparr>S_Domain = ''sub.example.com'', S_IsValid = True,
      S_NotBefore = Date 2024 1 1 0 0 0 0 0, S_NotAfter = Date 2025 1 1 0 0 0 0 0,
      S_DaysUntilExpiry = 291, S_SubjectAltNames = [''*.EXAMPLE.COM''], S_IsWildcard = True,
      S_ValidationErrors = [''certificate does not match domain''],
      S_QueryTime = noon\<rparr>"

section \<open>Properties of the certificate validator\<close>

lemma matchesNames_iff:
  "matchesNames names domain \<longleftrightarrow>
     (\<exists>name \<in> set names. EqualFold name domain \<or>
        (HasPrefix name ''*.'' \<and>
           (HasSuffix domain (''.'' @ drop 2 name) \<or> EqualFold domain (drop 2 name))))"
  by (induction names) (auto simp: Let_def)

lemma HasSuffix_iff_suffix: "HasSuffix s x \<longleftrightarrow> suffix x s"
  unfolding HasSuffix_def
  by (metis suffix_drop suffix_length_le suffixE append_eq_conv_conj length_append
      diff_add_inverse2)

lemma EqualFold_iff_ToLower: "EqualFold s t \<longleftrightarrow> ToLower s = ToLower t"
  by (induction s t rule: EqualFold.induct) (auto simp: ToLower_def)

lemma HasPrefix_iff_prefix: "HasPrefix s p \<longleftrightarrow> prefix p s"
  unfolding HasPrefix_def
  by (metis append_eq_conv_conj prefix_def prefix_length_le take_is_prefix)

lemma HasPrefix_drop: "HasPrefix name p \<longleftrightarrow> (\<exists>base. name = p @ base \<and> base = drop (length p) name)"
  unfolding HasPrefix_iff_prefix prefix_def by auto

lemmas eval_strings =
  HasPrefix_def HasSuffix_def lower_byte_def upper_letters_def lower_letters_def
  ToLower_def isSpace_def TrimSpace_def

text \<open>
  What \<open>matchesDomain\<close> computes: the common name and every subject alternative name are
  compared with the domain by \<open>EqualFold\<close>, and so is the base of a name \<open>*.base\<close>; the
  test that the domain ends with \<open>.base\<close> alone is \<open>HasSuffix\<close>, which compares bytes.
\<close>

lemma matchesDomain_iff:
  "matchesDomain cert domain \<longleftrightarrow>
      (EqualFold (CommonName cert) domain \<or>
       (\<exists>name \<in> set (DNSNames cert). EqualFold name domain \<or>
          (\<exists>base. name = ''*.'' @ base \<and>
             (EqualFold domain base \<or> suffix (''.'' @ base) domain))))"
proof -
  have w: "(HasPrefix name ''*.'' \<and>
              (HasSuffix domain (''.'' @ drop 2 name) \<or> EqualFold domain (drop 2 name)))
           \<longleftrightarrow> (\<exists>base. name = ''*.'' @ base \<and>
                  (EqualFold domain base \<or> suffix (''.'' @ base) domain))" for name
    by (auto simp: HasPrefix_iff_prefix HasSuffix_iff_suffix prefix_def)
  show ?thesis
    unfolding matchesDomain_def matchesNames_iff w by simp
qed

lemma validateCertificate_mismatch:
  "''certificate does not match domain'' \<in> set (validateCertificate now1 now2 cert domain)
      \<longleftrightarrow> \<not> matchesDomain cert domain"
  by (simp add: validateCertificate_def Let_def)

text \<open>
  Every name that \<open>matchesDomain\<close> accepts is accepted by the rule of the claim: the code
  errs only by rejecting.
\<close>

lemma suffix_ToLower: "suffix x s \<Longrightarrow> suffix (ToLower x) (ToLower s)"
  by (auto simp: suffix_def ToLower_def)

lemma matchesDomain_imp_spec:
  assumes "matchesDomain cert domain"
  shows "spec_matchesDomain cert domain"
  using assms
  unfolding matchesDomain_def matchesNames_iff spec_matchesDomain_def HasSuffix_iff_suffix
  by (auto split: if_splits dest: suffix_ToLower)

text \<open>
  C4 on a certificate whose only name is \<open>*.EXAMPLE.COM\<close>, probed for the domain
  \<open>sub.example.com\<close> (\<open>GetSSLInfo\<close> lowers the domain before it compares it): the domain
  ends with \<open>.EXAMPLE.COM\<close> up to the case of the letters, so the rule of the claim
  accepts it, but \<open>matchesDomain\<close> returns false and \<open>GetSSLInfo\<close> reports the domain
  mismatch for an otherwise valid certificate. The comparisons beside the suffix test
  fold the case: the same certificate matches \<open>example.com\<close> through its base, and the
  name \<open>SUB.EXAMPLE.COM\<close> matches \<open>sub.example.com\<close>. With the name in lower case,
  \<open>*.example.com\<close>, the domain \<open>sub.example.com\<close> matches and \<open>other.com\<close> does not.
\<close>

theorem matchesDomain_wildcard_suffix_case:
  "\<not> matchesDomain upper_wildcard_cert ''sub.example.com'' \<and>
   spec_matchesDomain upper_wildcard_cert ''sub.example.com'' \<and>
   GetSSLInfo serves_upper_wildcard clock_noon ''sub.example.com'' [] = Inr mismatch_info \<and>
   matchesDomain upper_wildcard_cert ''example.com'' \<and>
   matchesDomain upper_name_cert ''sub.example.com'' \<and>
   matchesDomain other_cert ''sub.example.com'' \<and>
   \<not> matchesDomain other_cert ''other.com''"
proof -
  have a: "\<not> matchesDomain upper_wildcard_cert ''sub.example.com''"
    by (simp add: matchesDomain_def upper_wildcard_cert_def eval_strings)
  have b: "spec_matchesDomain upper_wildcard_cert ''sub.example.com''"
    by (simp add: spec_matchesDomain_def upper_wildcard_cert_def eval_strings)
  have c: "GetSSLInfo serves_upper_wildcard clock_noon ''sub.example.com'' [] = Inr mismatch_info"
    by code_simp
  have d: "matchesDomain upper_wildcard_cert ''example.com''"
    by (simp add: matchesDomain_def upper_wildcard_cert_def eval_strings)
  have e: "matchesDomain upper_name_cert ''sub.example.com''"
    by (simp add: matchesDomain_def upper_name_cert_def eval_strings)
  have f: "matchesDomain other_cert ''sub.example.com''"
    by (simp add: matchesDomain_def other_cert_def eval_strings)
  have g: "\<not> matchesDomain other_cert ''other.com''"
    by (simp add: matchesDomain_def other_cert_def eval_strings)
  from a b c d e f g show ?thesis by (intro conjI)
qed

section \<open>Properties of the WHOIS parser\<close>

subsection \<open>Removing duplicates\<close>

lemma remdups_drop_later: "x \<in> set zs \<Longrightarrow> remdups (ys @ x # zs) = remdups (ys @ zs)"
  by (induction ys) auto

lemma removeDuplicates_loop_eq:
  "distinct res \<Longrightarrow> (\<forall>x. seen x \<longleftrightarrow> x \<in> set res) \<Longrightarrow>
   removeDuplicates_loop xs seen res = rev (remdups (rev (res @ xs)))"
proof (induction xs arbitrary: seen res)
  case Nil
  then show ?case by (simp add: distinct_remdups_id)
next
  case (Cons x xs)
  show ?case
  proof (cases "seen x")
    case True
    with Cons.prems have "x \<in> set (rev res)" by simp
    then have "remdups (rev xs @ x # rev res) = remdups (rev xs @ rev res)"
      by (rule remdups_drop_later)
    with True Cons.IH [OF Cons.prems] show ?thesis by simp
  next
    case False
    with Cons.prems have d: "distinct (res @ [x])" by simp
    from Cons.prems have s: "\<forall>y. (seen(x := True)) y \<longleftrightarrow> y \<in> set (res @ [x])" by auto
    have "removeDuplicates_loop (x # xs) seen res
            = removeDuplicates_loop xs (seen(x := True)) (res @ [x])"
      using False by simp
    also have "\<dots> = rev (remdups (rev ((res @ [x]) @ xs)))"
      by (rule Cons.IH [OF d s])
    finally show ?thesis by simp
  qed
qed

lemma removeDuplicates_eq: "removeDuplicates s = Slice (rev (remdups (rev (elems s))))"
  unfolding removeDuplicates_def
  using removeDuplicates_loop_eq [of "[]" "\<lambda>_. False" "elems s"] by simp

subsection \<open>Lower case\<close>

lemma letters_disjoint: "set upper_letters \<inter> set lower_letters = {}"
  by (simp add: upper_letters_def lower_letters_def)

lemma lower_byte_idem [simp]: "lower_byte (lower_byte c) = lower_byte c"
proof (cases "map_of (zip upper_letters lower_letters) c")
  case None
  then show ?thesis by (simp add: lower_byte_def)
next
  case (Some d)
  then have "(c, d) \<in> set (zip upper_letters lower_letters)" by (rule map_of_SomeD)
  then have "d \<in> set lower_letters" by (rule set_zip_rightD)
  with letters_disjoint have "d \<notin> set upper_letters" by blast
  then have "d \<notin> fst ` set (zip upper_letters lower_letters)"
    by (metis set_zip_leftD imageE prod.collapse)
  then have "map_of (zip upper_letters lower_letters) d = None"
    by (simp add: map_of_eq_None_iff)
  with Some show ?thesis by (simp add: lower_byte_def)
qed

lemma ToLower_idem [simp]: "ToLower (ToLower s) = ToLower s"
  by (simp add: ToLower_def)

subsection \<open>What a line changes\<close>

lemma processLine_WhoisServer [simp]: "WhoisServer (processLine info line) = WhoisServer info"
  by (simp add: processLine_def Let_def split: option.splits)

lemma parseLines_WhoisServer [simp]: "WhoisServer (parseLines info ls) = WhoisServer info"
  unfolding parseLines_def by (induction ls arbitrary: info) simp_all

lemma parseWhoisResponse_WhoisServer [simp]:
  "WhoisServer (parseWhoisResponse domain rawData server) = server"
  by (simp add: parseWhoisResponse_def Let_def newWhoisInfo_def)

lemma processLine_CreationDate:
  "CreationDate (processLine info line) =
     (let l = TrimSpace line in
      if l = [] \<or> HasPrefix l ''%'' \<or> HasPrefix l ''#'' then CreationDate info
      else dateField (FindStringSubmatch re_creation_date 2 l) (CreationDate info))"
  by (simp add: processLine_def Let_def split: option.splits)

lemma processLine_ExpirationDate:
  "ExpirationDate (processLine info line) =
     (let l = TrimSpace line in
      if l = [] \<or> HasPrefix l ''%'' \<or> HasPrefix l ''#'' then ExpirationDate info
      else dateField (FindStringSubmatch re_expiration_date 2 l) (ExpirationDate info))"
  by (simp add: processLine_def Let_def split: option.splits)

lemma processLine_UpdatedDate:
  "UpdatedDate (processLine info line) =
     (let l = TrimSpace line in
      if l = [] \<or> HasPrefix l ''%'' \<or> HasPrefix l ''#'' then UpdatedDate info
      else dateField (FindStringSubmatch re_updated_date 2 l) (UpdatedDate info))"
  by (simp add: processLine_def Let_def split: option.splits)

lemma processLine_NameServers:
  "NameServers (processLine info line) = NameServers info \<or>
   (\<exists>x. NameServers (processLine info line) = append1 (NameServers info) (ToLower x))"
  by (auto simp add: processLine_def Let_def split: option.splits)

lemma parseLines_NameServers_lower:
  "\<forall>ns \<in> set (elems (NameServers info)). ToLower ns = ns \<Longrightarrow>
   \<forall>ns \<in> set (elems (NameServers (parseLines info ls))). ToLower ns = ns"
  unfolding parseLines_def
proof (induction ls arbitrary: info)
  case Nil
  then show ?case by simp
next
  case (Cons l ls)
  have "\<forall>ns \<in> set (elems (NameServers (processLine info l))). ToLower ns = ns"
    using processLine_NameServers [of info l] Cons.prems
    by (auto simp: append1_def)
  from Cons.IH [OF this] show ?case by simp
qed

lemma set_first_occurrences [simp]: "set (rev (remdups (rev xs))) = set xs"
  by simp

subsection \<open>The lists of the record\<close>

text \<open>
  C7: the name-server and status lists of the record are the lists collected line by line
  with every later occurrence of an entry removed, in the order of the first occurrences;
  they hold no entry twice, every name server is in lower case, and the line
  \<open>Name Server: ns1.example.com\<close> given twice yields the name server once.
\<close>

theorem parseWhoisResponse_no_duplicates:
  "NameServers (parseWhoisResponse domain rawData server) =
     Slice (rev (remdups (rev (elems (NameServers
       (parseLines (newWhoisInfo domain rawData server) (Split rawData (CHR 0x0A)))))))) \<and>
   Status (parseWhoisResponse domain rawData server) =
     Slice (rev (remdups (rev (elems (Status
       (parseLines (newWhoisInfo domain rawData server) (Split rawData (CHR 0x0A)))))))) \<and>
   distinct (elems (NameServers (parseWhoisResponse domain rawData server))) \<and>
   distinct (elems (Status (parseWhoisResponse domain rawData server))) \<and>
   (\<forall>ns \<in> set (elems (NameServers (parseWhoisResponse domain rawData server))).
      ToLower ns = ns) \<and>
   NameServers (parseWhoisResponse domain' two_name_servers server') = Slice [''ns1.example.com'']"
proof -
  let ?info = "parseLines (newWhoisInfo domain rawData server) (Split rawData (CHR 0x0A))"
  have ns: "NameServers (parseWhoisResponse domain rawData server) =
      Slice (rev (remdups (rev (elems (NameServers ?info)))))"
    by (simp add: parseWhoisResponse_def Let_def removeDuplicates_eq)
  have st: "Status (parseWhoisResponse domain rawData server) =
      Slice (rev (remdups (rev (elems (Status ?info)))))"
    by (simp add: parseWhoisResponse_def Let_def removeDuplicates_eq)
  have "\<forall>ns \<in> set (elems (NameServers ?info)). ToLower ns = ns"
    by (rule parseLines_NameServers_lower) (simp add: newWhoisInfo_def)
  then have low: "\<forall>ns \<in> set (elems (NameServers (parseWhoisResponse domain rawData server))).
      ToLower ns = ns"
    unfolding ns by simp
  have ex: "NameServers (parseWhoisResponse domain' two_name_servers server')
      = Slice [''ns1.example.com'']"
    unfolding two_name_servers_def by code_simp
  from ns st low ex show ?thesis by simp
qed

theorem parseWhoisResponse_no_duplicates_witness:
  "NameServers (parseWhoisResponse ''example.com'' two_name_servers ''whois.pir.org'')
     = Slice [''ns1.example.com''] \<and>
   ''ns1.example.com'' \<in> set (elems (NameServers
       (parseWhoisResponse ''example.com'' two_name_servers ''whois.pir.org''))) \<and>
   ToLower ''ns1.example.com'' = ''ns1.example.com'' \<and>
   distinct (elems (NameServers
       (parseWhoisResponse ''example.com'' two_name_servers ''whois.pir.org'')))"
proof -
  let ?r = "parseWhoisResponse ''example.com'' two_name_servers ''whois.pir.org''"
  note t = parseWhoisResponse_no_duplicates
    [of "''example.com''" two_name_servers "''whois.pir.org''" "''example.com''" "''whois.pir.org''"]
  from t have a: "NameServers ?r = Slice [''ns1.example.com'']" by (elim conjE)
  from t have d: "distinct (elems (NameServers ?r))" by (elim conjE)
  from t have l: "\<forall>ns \<in> set (elems (NameServers ?r)). ToLower ns = ns" by (elim conjE)
  have m: "''ns1.example.com'' \<in> set (elems (NameServers ?r))" by (simp add: a)
  from l m have "ToLower ''ns1.example.com'' = ''ns1.example.com''" by (rule bspec)
  with a d m show ?thesis by (intro conjI)
qed

text \<open>
  C10: for every domain, raw text and server, the name-server and status lists of the
  record are slices that are not nil; for the empty raw text they are the empty slice.
\<close>

theorem parseWhoisResponse_lists_not_nil:
  "NameServers (parseWhoisResponse domain rawData server) \<noteq> NilSlice \<and>
   Status (parseWhoisResponse domain rawData server) \<noteq> NilSlice \<and>
   NameServers (parseWhoisResponse domain [] server) = Slice [] \<and>
   Status (parseWhoisResponse domain [] server) = Slice []"
proof -
  have "NameServers (parseWhoisResponse domain [] server) = Slice []"
    by (simp add: parseWhoisResponse_def Let_def removeDuplicates_def parseLines_def
        processLine_def newWhoisInfo_def TrimSpace_def)
  moreover have "Status (parseWhoisResponse domain [] server) = Slice []"
    by (simp add: parseWhoisResponse_def Let_def removeDuplicates_def parseLines_def
        processLine_def newWhoisInfo_def TrimSpace_def)
  ultimately show ?thesis
    by (simp add: parseWhoisResponse_def Let_def removeDuplicates_def)
qed

section \<open>Properties of the WHOIS client\<close>

lemma Split_not_Nil [simp]: "Split s c \<noteq> []"
  by (induction s) (auto split: list.splits)

lemma Split_no_sep: "c \<notin> set s \<Longrightarrow> Split s c = [s]"
  by (induction s) auto

lemma length_Split: "length (Split s c) = Suc (length (filter (\<lambda>x. x = c) s))"
  by (induction s) (auto split: list.splits)

lemma length_Split_less_2: "length (Split s c) < 2 \<longleftrightarrow> c \<notin> set s"
  unfolding length_Split by (auto simp: filter_empty_conv)

lemma last_Split: "last (Split s c) = rev (takeWhile (\<lambda>x. x \<noteq> c) (rev s))"
proof (induction s)
  case Nil
  then show ?case by simp
next
  case (Cons a s)
  show ?case
  proof (cases "a = c")
    case True
    then show ?thesis using Cons.IH by (simp add: takeWhile_append)
  next
    case False
    show ?thesis
    proof (cases "c \<in> set s")
      case True
      then have "1 < length (Split s c)"
        using length_Split_less_2 [of s c] by simp
      then obtain p q ps where sp: "Split s c = p # q # ps"
        by (cases "Split s c"; cases "tl (Split s c)") auto
      with False True Cons.IH show ?thesis by (auto simp add: takeWhile_append)
    next
      case notin: False
      with False show ?thesis by (auto simp add: Split_no_sep takeWhile_append)
    qed
  qed
qed

lemma Split_last_nth: "Split s c ! (length (Split s c) - Suc 0) = last (Split s c)"
  by (simp add: last_conv_nth)

lemma serversOf_default: "serversOf ''default'' = [''whois.iana.org'', ''whois.internic.net'']"
  by (simp add: serversOf_def WhoisServers_def)

lemma WhoisServers_entries_nonempty: "map_of WhoisServers tld = Some l \<Longrightarrow> l \<noteq> []"
  by (auto simp: WhoisServers_def split: if_splits)

lemma candidateServers_eq:
  "candidateServers tld =
     (case map_of WhoisServers tld of Some l \<Rightarrow> l
      | None \<Rightarrow> [''whois.iana.org'', ''whois.internic.net''])"
proof (cases "map_of WhoisServers tld")
  case None
  then show ?thesis
    by (simp add: candidateServers_def Let_def serversOf_default) (simp add: serversOf_def)
next
  case (Some l)
  then have "l \<noteq> []" by (rule WhoisServers_entries_nonempty)
  with Some show ?thesis
    by (simp add: candidateServers_def Let_def serversOf_def)
qed

lemma GetWhoisInfo_valid:
  assumes "ToLower (TrimSpace domain0) \<noteq> []" and "CHR ''.'' \<in> set (ToLower (TrimSpace domain0))"
  shows "GetWhoisInfo net now domain0 =
     tryServers net now (ToLower (TrimSpace domain0))
       (candidateServers (rev (takeWhile (\<lambda>x. x \<noteq> CHR ''.'') (rev (ToLower (TrimSpace domain0))))))
       None []"
  using assms
  by (simp add: GetWhoisInfo_def Let_def length_Split_less_2 Split_last_nth last_Split)

lemma queryWhoisServer_WhoisServer:
  "queryWhoisServer net now domain server = Inr info \<Longrightarrow> WhoisServer info = server"
  by (auto simp: queryWhoisServer_def Let_def split: reply.splits if_splits)

lemma tryServers_all_fail:
  "\<forall>s \<in> set pre. isl (queryWhoisServer net now domain s) \<Longrightarrow>
   tryServers net now domain (pre @ rest) lastErr queried =
     tryServers net now domain rest
       (if pre = [] then lastErr
        else Some (WhoisError domain (projl (queryWhoisServer net now domain (last pre))) (last pre)))
       (queried @ pre)"
proof (induction pre arbitrary: lastErr queried)
  case Nil
  then show ?case by simp
next
  case (Cons s pre)
  then obtain e where e: "queryWhoisServer net now domain s = Inl e"
    by (cases "queryWhoisServer net now domain s") auto
  from Cons.prems have "\<forall>s \<in> set pre. isl (queryWhoisServer net now domain s)" by simp
  from Cons.IH [OF this] e show ?case by simp
qed

text \<open>
  C1: when every server of \<open>pre\<close> fails, a following server that answers with a record
  ends the loop: the record is returned with no error, its \<open>WhoisServer\<close> is that server,
  and the servers queried are those of \<open>pre\<close> and that server, in order, none of \<open>post\<close>.
  When all the servers fail, the result is no record and the error of the last server;
  the errors of the earlier servers are dropped. \<open>GetWhoisInfo\<close> runs this loop on the
  candidate servers of the normalised domain.
\<close>

theorem GetWhoisInfo_fallback:
  assumes "\<forall>s \<in> set pre. isl (queryWhoisServer net now domain s)"
  shows
   "(queryWhoisServer net now domain server = Inr info \<longrightarrow>
       tryServers net now domain (pre @ server # post) None []
         = ((Some info, None), pre @ [server]) \<and>
       WhoisServer info = server) \<and>
    (pre \<noteq> [] \<longrightarrow>
       tryServers net now domain pre None []
         = ((None, Some (WhoisError domain
                          (projl (queryWhoisServer net now domain (last pre))) (last pre))),
            pre)) \<and>
    (ToLower (TrimSpace domain0) = domain \<and> domain \<noteq> [] \<and> CHR ''.'' \<in> set domain \<longrightarrow>
       GetWhoisInfo net now domain0
         = tryServers net now domain
             (candidateServers (Split domain (CHR ''.'') ! (length (Split domain (CHR ''.'')) - 1)))
             None [])"
proof (intro conjI impI)
  assume q: "queryWhoisServer net now domain server = Inr info"
  have "tryServers net now domain (pre @ server # post) None []
      = tryServers net now domain (server # post)
          (if pre = [] then None
           else Some (WhoisError domain
                  (projl (queryWhoisServer net now domain (last pre))) (last pre)))
          ([] @ pre)"
    by (rule tryServers_all_fail [OF assms])
  with q show "tryServers net now domain (pre @ server # post) None []
      = ((Some info, None), pre @ [server])"
    by simp
  from q show "WhoisServer info = server" by (rule queryWhoisServer_WhoisServer)
next
  assume ne: "pre \<noteq> []"
  have "tryServers net now domain (pre @ []) None []
      = tryServers net now domain []
          (if pre = [] then None
           else Some (WhoisError domain
                  (projl (queryWhoisServer net now domain (last pre))) (last pre)))
          ([] @ pre)"
    by (rule tryServers_all_fail [OF assms])
  with ne show "tryServers net now domain pre None []
      = ((None, Some (WhoisError domain
                       (projl (queryWhoisServer net now domain (last pre))) (last pre))),
         pre)"
    by simp
next
  assume "ToLower (TrimSpace domain0) = domain \<and> domain \<noteq> [] \<and> CHR ''.'' \<in> set domain"
  then show "GetWhoisInfo net now domain0
         = tryServers net now domain
             (candidateServers (Split domain (CHR ''.'') ! (length (Split domain (CHR ''.'')) - 1)))
             None []"
    by (auto simp add: GetWhoisInfo_def Let_def length_Split_less_2)
qed

theorem GetWhoisInfo_fallback_witness:
  "snd (tryServers third_answers zeroTime ''example.com''
          [''a.example'', ''b.example'', ''c.example'', ''d.example''] None [])
     = [''a.example'', ''b.example'', ''c.example''] \<and>
   map_option WhoisServer
     (fst (fst (tryServers third_answers zeroTime ''example.com''
          [''a.example'', ''b.example'', ''c.example'', ''d.example''] None [])))
     = Some ''c.example'' \<and>
   tryServers nobody_answers zeroTime ''example.com'' [''a.example'', ''b.example''] None []
     = ((None, Some (WhoisError ''example.com'' (ConnectionFailed ''connection refused'')
                       ''b.example'')),
        [''a.example'', ''b.example''])"
proof -
  let ?raw = "''Registrar: Example Registrar'' @ [CHR 0x0A]"
  let ?info = "(parseWhoisResponse ''example.com'' ?raw ''c.example'')\<lparr>QueryTime := zeroTime\<rparr>"
  have f: "\<forall>s \<in> set [''a.example'', ''b.example''].
      isl (queryWhoisServer third_answers zeroTime ''example.com'' s)"
    by (simp add: queryWhoisServer_def third_answers_def)
  have q: "queryWhoisServer third_answers zeroTime ''example.com'' ''c.example'' = Inr ?info"
    by (simp add: queryWhoisServer_def third_answers_def)
  from GetWhoisInfo_fallback [OF f, of "''c.example''" ?info "[''d.example'']"] q
  have t: "tryServers third_answers zeroTime ''example.com''
          ([''a.example'', ''b.example''] @ ''c.example'' # [''d.example'']) None []
        = ((Some ?info, None), [''a.example'', ''b.example''] @ [''c.example''])"
    and w: "WhoisServer ?info = ''c.example''"
    by blast+
  have g: "\<forall>s \<in> set [''a.example'', ''b.example''].
      isl (queryWhoisServer nobody_answers zeroTime ''example.com'' s)"
    by (simp add: queryWhoisServer_def nobody_answers_def)
  from GetWhoisInfo_fallback [OF g]
  have n: "tryServers nobody_answers zeroTime ''example.com'' [''a.example'', ''b.example''] None []
     = ((None, Some (WhoisError ''example.com''
          (projl (queryWhoisServer nobody_answers zeroTime ''example.com''
                   (last [''a.example'', ''b.example''])))
          (last [''a.example'', ''b.example'']))),
        [''a.example'', ''b.example''])"
    by blast
  have p: "projl (queryWhoisServer nobody_answers zeroTime ''example.com'' ''b.example'')
      = ConnectionFailed ''connection refused''"
    by (simp add: queryWhoisServer_def nobody_answers_def)
  from t w have "snd (tryServers third_answers zeroTime ''example.com''
          [''a.example'', ''b.example'', ''c.example'', ''d.example''] None [])
     = [''a.example'', ''b.example'', ''c.example'']"
    and "map_option WhoisServer
     (fst (fst (tryServers third_answers zeroTime ''example.com''
          [''a.example'', ''b.example'', ''c.example'', ''d.example''] None [])))
     = Some ''c.example''"
    by simp_all
  moreover from n p have "tryServers nobody_answers zeroTime ''example.com''
      [''a.example'', ''b.example''] None []
     = ((None, Some (WhoisError ''example.com'' (ConnectionFailed ''connection refused'')
                       ''b.example'')),
        [''a.example'', ''b.example''])"
    by simp
  ultimately show ?thesis by (intro conjI)
qed

lemma tryServers_nobody:
  "tryServers nobody_answers now domain servers lastErr queried
     = ((None, if servers = [] then lastErr
               else Some (WhoisError domain (ConnectionFailed ''connection refused'')
                            (last servers))),
        queried @ servers)"
  by (induction servers arbitrary: lastErr queried)
     (simp_all add: queryWhoisServer_def nobody_answers_def)

text \<open>
  C8: for a domain that normalises to \<open>d\<close>, not empty and with a dot, the top-level label
  \<open>tld\<close> is the text after the last dot of \<open>d\<close>. When the table has an entry for \<open>tld\<close>,
  \<open>GetWhoisInfo\<close> runs the fallback loop on exactly the list of that entry; when it has
  none, on exactly the default list. If no server answers, the servers queried are that
  list, in order.
\<close>

theorem GetWhoisInfo_candidates:
  assumes "d = ToLower (TrimSpace domain0)" and "d \<noteq> []" and "CHR ''.'' \<in> set d"
    and "tld = rev (takeWhile (\<lambda>c. c \<noteq> CHR ''.'') (rev d))"
  shows
   "(\<forall>servers. map_of WhoisServers tld = Some servers \<longrightarrow>
       GetWhoisInfo net now domain0 = tryServers net now d servers None [] \<and>
       snd (GetWhoisInfo nobody_answers now domain0) = servers) \<and>
    (map_of WhoisServers tld = None \<longrightarrow>
       GetWhoisInfo net now domain0
         = tryServers net now d [''whois.iana.org'', ''whois.internic.net''] None [] \<and>
       snd (GetWhoisInfo nobody_answers now domain0)
         = [''whois.iana.org'', ''whois.internic.net''])"
proof -
  have g: "GetWhoisInfo n now domain0 = tryServers n now d (candidateServers tld) None []" for n
    using assms GetWhoisInfo_valid [of domain0 n now] by simp
  show ?thesis
    by (simp add: g candidateServers_eq tryServers_nobody del: tryServers.simps)
qed

theorem GetWhoisInfo_candidates_witness:
  "GetWhoisInfo third_answers zeroTime ''  Example.COM ''
     = tryServers third_answers zeroTime ''example.com''
         [''whois.verisign-grs.com'', ''whois.markmonitor.com''] None [] \<and>
   snd (GetWhoisInfo nobody_answers zeroTime ''  Example.COM '')
     = [''whois.verisign-grs.com'', ''whois.markmonitor.com''] \<and>
   GetWhoisInfo third_answers zeroTime ''example.dev''
     = tryServers third_answers zeroTime ''example.dev'' [''whois.iana.org'', ''whois.internic.net''] None [] \<and>
   snd (GetWhoisInfo nobody_answers zeroTime ''example.dev'')
     = [''whois.iana.org'', ''whois.internic.net'']"
proof -
  have d1: "''example.com'' = ToLower (TrimSpace ''  Example.COM '')" by code_simp
  have t1: "''com'' = rev (takeWhile (\<lambda>c. c \<noteq> CHR ''.'') (rev ''example.com''))" by simp
  have m1: "map_of WhoisServers ''com''
      = Some [''whois.verisign-grs.com'', ''whois.markmonitor.com'']"
    by (simp add: WhoisServers_def)
  have d2: "''example.dev'' = ToLower (TrimSpace ''example.dev'')" by code_simp
  have t2: "''dev'' = rev (takeWhile (\<lambda>c. c \<noteq> CHR ''.'') (rev ''example.dev''))" by simp
  have m2: "map_of WhoisServers ''dev'' = None"
    by (simp add: WhoisServers_def)
  from GetWhoisInfo_candidates [OF d1 _ _ t1, of third_answers zeroTime] m1
  have a: "GetWhoisInfo third_answers zeroTime ''  Example.COM ''
     = tryServers third_answers zeroTime ''example.com''
         [''whois.verisign-grs.com'', ''whois.markmonitor.com''] None [] \<and>
   snd (GetWhoisInfo nobody_answers zeroTime ''  Example.COM '')
     = [''whois.verisign-grs.com'', ''whois.markmonitor.com'']"
    by simp
  from GetWhoisInfo_candidates [OF d2 _ _ t2, of third_answers zeroTime] m2
  have b: "GetWhoisInfo third_answers zeroTime ''example.dev''
     = tryServers third_answers zeroTime ''example.dev'' [''whois.iana.org'', ''whois.internic.net''] None [] \<and>
   snd (GetWhoisInfo nobody_answers zeroTime ''example.dev'')
     = [''whois.iana.org'', ''whois.internic.net'']"
    by simp
  from a b show ?thesis by simp
qed

text \<open>
  C9: a domain that is empty after trimming and lowering, or that has no dot, makes
  \<open>GetWhoisInfo\<close> return no record and an input error, with no server queried.
\<close>

theorem GetWhoisInfo_invalid_input:
  assumes "d = ToLower (TrimSpace domain0)" and "d = [] \<or> CHR ''.'' \<notin> set d"
  shows "GetWhoisInfo net now domain0
           = ((None, Some (if d = [] then DomainEmpty else InvalidDomainFormat d)), [])"
  using assms by (auto simp add: GetWhoisInfo_def Let_def length_Split_less_2)

theorem GetWhoisInfo_invalid_input_witness:
  "GetWhoisInfo third_answers zeroTime [CHR '' '', CHR 0x09, CHR '' ''] = ((None, Some DomainEmpty), []) \<and>
   GetWhoisInfo third_answers zeroTime '' LocalHost ''
     = ((None, Some (InvalidDomainFormat ''localhost'')), [])"
proof -
  have d1: "[] = ToLower (TrimSpace [CHR '' '', CHR 0x09, CHR '' ''])" by code_simp
  have d2: "''localhost'' = ToLower (TrimSpace '' LocalHost '')" by code_simp
  have n2: "''localhost'' = [] \<or> CHR ''.'' \<notin> set ''localhost''" by simp
  from GetWhoisInfo_invalid_input [OF d1, of third_answers zeroTime]
  have a: "GetWhoisInfo third_answers zeroTime [CHR '' '', CHR 0x09, CHR '' ''] = ((None, Some DomainEmpty), [])"
    by simp
  from GetWhoisInfo_invalid_input [OF d2 n2, of third_answers zeroTime]
  have b: "GetWhoisInfo third_answers zeroTime '' LocalHost ''
     = ((None, Some (InvalidDomainFormat ''localhost'')), [])"
    by simp
  from a b show ?thesis by simp
qed

section \<open>Properties of the date fields\<close>

lemma tryFormats_none:
  "list_all (\<lambda>format. Parse format s = None) fs \<Longrightarrow> tryFormats fs s = zeroTime"
  by (induction fs) simp_all

lemma parseDate_unparseable: "unparseable s \<Longrightarrow> parseDate s = zeroTime"
  by (simp add: unparseable_def parseDate_def tryFormats_none)

lemma dateField_unparseable:
  "(case m of None \<Rightarrow> True | Some match \<Rightarrow> unparseable (match ! 2)) \<Longrightarrow> dateField m cur = cur"
  by (auto simp: dateField_def Let_def parseDate_unparseable IsZero_def zeroTime_def
      split: option.splits)

lemma parseLines_CreationDate_kept:
  "list_all (dateTextUnparseable re_creation_date) ls \<Longrightarrow>
   CreationDate (parseLines info ls) = CreationDate info"
  unfolding parseLines_def
proof (induction ls arbitrary: info)
  case Nil
  then show ?case by simp
next
  case (Cons l ls)
  then have "CreationDate (processLine info l) = CreationDate info"
    by (simp add: processLine_CreationDate Let_def dateTextUnparseable_def dateField_unparseable)
  with Cons show ?case by simp
qed

lemma parseLines_ExpirationDate_kept:
  "list_all (dateTextUnparseable re_expiration_date) ls \<Longrightarrow>
   ExpirationDate (parseLines info ls) = ExpirationDate info"
  unfolding parseLines_def
proof (induction ls arbitrary: info)
  case Nil
  then show ?case by simp
next
  case (Cons l ls)
  then have "ExpirationDate (processLine info l) = ExpirationDate info"
    by (simp add: processLine_ExpirationDate Let_def dateTextUnparseable_def dateField_unparseable)
  with Cons show ?case by simp
qed

lemma parseLines_UpdatedDate_kept:
  "list_all (dateTextUnparseable re_updated_date) ls \<Longrightarrow>
   UpdatedDate (parseLines info ls) = UpdatedDate info"
  unfolding parseLines_def
proof (induction ls arbitrary: info)
  case Nil
  then show ?case by simp
next
  case (Cons l ls)
  then have "UpdatedDate (processLine info l) = UpdatedDate info"
    by (simp add: processLine_UpdatedDate Let_def dateTextUnparseable_def dateField_unparseable)
  with Cons show ?case by simp
qed

text \<open>
  C6, as stated, fails: the value that \<open>parseDate\<close> returns for \<open>not a date\<close>, which no
  layout parses, is the value that it returns for \<open>0001-01-01\<close>, which the layout
  \<open>2006-01-02\<close> parses to the first instant of the year 1. The value for absent is a
  real date as well, and a response that gives this date has its field left unset, as
  a response with an unreadable date has.
\<close>

theorem parseDate_zero_time_counterexample:
  "unparseable ''not a date'' \<and> \<not> unparseable ''0001-01-01'' \<and>
   Parse ''2006-01-02'' ''0001-01-01'' = Some (Date 1 1 1 0 0 0 0 0) \<and>
   parseDate ''0001-01-01'' = parseDate ''not a date'' \<and>
   CreationDate (parseWhoisResponse ''example.com'' ''Creation Date: 0001-01-01''
       ''whois.pir.org'')
     = CreationDate (parseWhoisResponse ''example.com'' ''Creation Date: not a date''
       ''whois.pir.org'')"
  by code_simp

text \<open>
  C6, amended: for a string that none of the layouts parses, \<open>parseDate\<close> returns the
  zero time, Go's \<open>time.Time{}\<close>, for which \<open>IsZero\<close> holds; it is the first instant of
  the year 1 in UTC and not the Unix epoch. A date field offered a string whose parse
  is the zero time, unparseable or not, keeps its value. When the date text of every
  line of a response is unparseable, the three date fields of the record are the zero
  time.
\<close>

theorem parseDate_absent:
  "(unparseable s \<longrightarrow>
      parseDate s = zeroTime \<and> IsZero (parseDate s) \<and> parseDate s \<noteq> unixEpoch \<and>
      dateField (Some [whole, label, s]) cur = cur) \<and>
   zeroTime = Date 1 1 1 0 0 0 0 0 \<and>
   (IsZero (parseDate s') \<longrightarrow> dateField (Some [whole', label', s']) cur' = cur') \<and>
   (list_all (dateTextUnparseable re_creation_date) (Split rawData (CHR 0x0A)) \<longrightarrow>
      CreationDate (parseWhoisResponse domain rawData server) = zeroTime) \<and>
   (list_all (dateTextUnparseable re_expiration_date) (Split rawData (CHR 0x0A)) \<longrightarrow>
      ExpirationDate (parseWhoisResponse domain rawData server) = zeroTime) \<and>
   (list_all (dateTextUnparseable re_updated_date) (Split rawData (CHR 0x0A)) \<longrightarrow>
      UpdatedDate (parseWhoisResponse domain rawData server) = zeroTime)"
proof (intro conjI impI)
  assume u: "unparseable s"
  then show z: "parseDate s = zeroTime" by (rule parseDate_unparseable)
  then show "IsZero (parseDate s)" by (simp add: IsZero_def zeroTime_def)
  have "sec unixEpoch \<noteq> 0"
    by (simp add: unixEpoch_def Date_def daysSinceEpoch_def daysBefore_def isLeap_def)
  moreover have "sec zeroTime = 0" by (simp add: zeroTime_def)
  ultimately have "zeroTime \<noteq> unixEpoch" by metis
  with z show "parseDate s \<noteq> unixEpoch" by simp
  from u show "dateField (Some [whole, label, s]) cur = cur"
    by (simp add: dateField_unparseable)
next
  show "zeroTime = Date 1 1 1 0 0 0 0 0"
    by (simp add: zeroTime_def Date_def daysSinceEpoch_def daysBefore_def isLeap_def)
next
  assume "IsZero (parseDate s')"
  then show "dateField (Some [whole', label', s']) cur' = cur'"
    by (simp add: dateField_def Let_def)
next
  assume "list_all (dateTextUnparseable re_creation_date) (Split rawData (CHR 0x0A))"
  then show "CreationDate (parseWhoisResponse domain rawData server) = zeroTime"
    by (simp add: parseWhoisResponse_def Let_def parseLines_CreationDate_kept newWhoisInfo_def)
next
  assume "list_all (dateTextUnparseable re_expiration_date) (Split rawData (CHR 0x0A))"
  then show "ExpirationDate (parseWhoisResponse domain rawData server) = zeroTime"
    by (simp add: parseWhoisResponse_def Let_def parseLines_ExpirationDate_kept newWhoisInfo_def)
next
  assume "list_all (dateTextUnparseable re_updated_date) (Split rawData (CHR 0x0A))"
  then show "UpdatedDate (parseWhoisResponse domain rawData server) = zeroTime"
    by (simp add: parseWhoisResponse_def Let_def parseLines_UpdatedDate_kept newWhoisInfo_def)
qed

theorem parseDate_absent_witness:
  "unparseable ''not a date'' \<and> parseDate ''not a date'' = zeroTime \<and>
   IsZero (parseDate ''0001-01-01'') \<and>
   dateField (Some [''Creation Date: 0001-01-01'', ''Creation Date'', ''0001-01-01''])
     (Date 2024 3 15 0 0 0 0 0) = Date 2024 3 15 0 0 0 0 0 \<and>
   list_all (dateTextUnparseable re_creation_date) (Split bad_dates (CHR 0x0A)) \<and>
   list_all (dateTextUnparseable re_expiration_date) (Split bad_dates (CHR 0x0A)) \<and>
   list_all (dateTextUnparseable re_updated_date) (Split bad_dates (CHR 0x0A)) \<and>
   CreationDate (parseWhoisResponse ''example.com'' bad_dates ''whois.pir.org'') = zeroTime \<and>
   ExpirationDate (parseWhoisResponse ''example.com'' bad_dates ''whois.pir.org'') = zeroTime \<and>
   UpdatedDate (parseWhoisResponse ''example.com'' bad_dates ''whois.pir.org'') = zeroTime"
proof -
  have u: "unparseable ''not a date''" by code_simp
  have y: "IsZero (parseDate ''0001-01-01'')" by code_simp
  have c: "list_all (dateTextUnparseable re_creation_date) (Split bad_dates (CHR 0x0A))"
    by code_simp
  have e: "list_all (dateTextUnparseable re_expiration_date) (Split bad_dates (CHR 0x0A))"
    by code_simp
  have d: "list_all (dateTextUnparseable re_updated_date) (Split bad_dates (CHR 0x0A))"
    by code_simp
  note t = parseDate_absent [of "''not a date''" "[]" "[]" zeroTime "''0001-01-01''"
      "''Creation Date: 0001-01-01''" "''Creation Date''" "Date 2024 3 15 0 0 0 0 0"
      bad_dates "''example.com''" "''whois.pir.org''"]
  from t u have "parseDate ''not a date'' = zeroTime" by blast
  moreover from t y
  have "dateField (Some [''Creation Date: 0001-01-01'', ''Creation Date'', ''0001-01-01''])
     (Date 2024 3 15 0 0 0 0 0) = Date 2024 3 15 0 0 0 0 0"
    by blast
  moreover from t c
  have "CreationDate (parseWhoisResponse ''example.com'' bad_dates ''whois.pir.org'') = zeroTime"
    by blast
  moreover from t e
  have "ExpirationDate (parseWhoisResponse ''example.com'' bad_dates ''whois.pir.org'') = zeroTime"
    by blast
  moreover from t d
  have "UpdatedDate (parseWhoisResponse ''example.com'' bad_dates ''whois.pir.org'') = zeroTime"
    by blast
  ultimately show ?thesis using u y c e d by (intro conjI)
qed

text \<open>
  C2 on the line \<open>Registry Expiry Date: 2024-03-15T10:00:00Z\<close>: the greedy \<open>.*\<close> of the
  expiration pattern runs to the last colon of the line, the value captured is \<open>00Z\<close>,
  and the expiration date of the record stays zero although \<open>parseDate\<close> parses the
  value of the line. The same value after \<open>Creation Date:\<close> is stored.
\<close>

theorem expiration_date_with_time_dropped:
  "FindStringSubmatch re_expiration_date 2 ''Registry Expiry Date: 2024-03-15T10:00:00Z''
     = Some [''Expiry Date: 2024-03-15T10:00:00Z'', ''Expir'', ''00Z''] \<and>
   parseDate ''2024-03-15T10:00:00Z'' = Date 2024 3 15 10 0 0 0 0 \<and>
   \<not> IsZero (parseDate ''2024-03-15T10:00:00Z'') \<and>
   ExpirationDate (parseWhoisResponse ''example.com''
       ''Registry Expiry Date: 2024-03-15T10:00:00Z'' ''whois.verisign-grs.com'') = zeroTime \<and>
   UpdatedDate (parseWhoisResponse ''example.com''
       ''Updated Date: 2024-03-15T10:00:00Z'' ''whois.verisign-grs.com'') = zeroTime \<and>
   CreationDate (parseWhoisResponse ''example.com''
       ''Creation Date: 2024-03-15T10:00:00Z'' ''whois.verisign-grs.com'')
     = Date 2024 3 15 10 0 0 0 0 \<and>
   ExpirationDate (parseWhoisResponse ''example.com''
       ''Registry Expiry Date: 2024-03-15'' ''whois.verisign-grs.com'')
     = Date 2024 3 15 0 0 0 0 0"
  by code_simp

section \<open>Properties of \<open>parseDate\<close>\<close>

subsection \<open>Digits\<close>

lemma digit_range: "0 \<le> n \<Longrightarrow> n < 10 \<Longrightarrow> n \<in> {0, 1, 2, 3, 4, 5, 6, 7, 8, (9::int)}"
  by (simp, arith)

lemma digitChar_isDigit [simp]: "0 \<le> n \<Longrightarrow> n < 10 \<Longrightarrow> isDigit (digitChar n)"
  by (drule (1) digit_range) (auto simp: digitChar_def isDigit_def)

lemma digitVal_digitChar [simp]: "0 \<le> n \<Longrightarrow> n < 10 \<Longrightarrow> digitVal (digitChar n) = n"
  by (drule (1) digit_range) (auto simp: digitChar_def digitVal_def)

lemma isDigit_cases:
  assumes "isDigit c"
  obtains "c = CHR ''0''" | "c = CHR ''1''" | "c = CHR ''2''" | "c = CHR ''3''" | "c = CHR ''4''"
    | "c = CHR ''5''" | "c = CHR ''6''" | "c = CHR ''7''" | "c = CHR ''8''" | "c = CHR ''9''"
  using assms by (auto simp: isDigit_def)

lemma isDigit_lower [simp]: "isDigit c \<Longrightarrow> lower_byte c = c"
  by (erule isDigit_cases) (simp_all add: lower_byte_def upper_letters_def lower_letters_def)

lemma isDigit_not_space [simp]: "isDigit c \<Longrightarrow> \<not> isSpace c"
  by (erule isDigit_cases) (simp_all add: isSpace_def)

lemma isDigit_literals [simp]:
  "\<not> isDigit (CHR ''-'')" "\<not> isDigit (CHR ''/'')" "\<not> isDigit (CHR '':'')"
  "\<not> isDigit (CHR '' '')" "\<not> isDigit (CHR ''T'')" "\<not> isDigit (CHR ''Z'')"
  "\<not> isDigit (CHR ''+'')" "\<not> isDigit (CHR ''.'')" "\<not> isDigit (CHR '','')"
  by (simp_all add: isDigit_def)

lemma isDigit_letters [simp]:
  "c \<in> set upper_letters \<Longrightarrow> \<not> isDigit c" "c \<in> set lower_letters \<Longrightarrow> \<not> isDigit c"
  by (auto simp: isDigit_def upper_letters_def lower_letters_def)

lemma isDigit_neq:
  "isDigit c \<Longrightarrow> \<not> isDigit d \<Longrightarrow> (c = d) = False"
  "isDigit c \<Longrightarrow> \<not> isDigit d \<Longrightarrow> (d = c) = False"
  by auto

lemma digitsOf_1: "0 \<le> n \<Longrightarrow> n < 10 \<Longrightarrow> digitsOf n = [digitChar n]"
  by (subst digitsOf.simps) simp

lemma digitsOf_2:
  "10 \<le> n \<Longrightarrow> n < 100 \<Longrightarrow> digitsOf n = [digitChar (n div 10), digitChar (n mod 10)]"
  by (subst digitsOf.simps) (simp add: digitsOf_1)

lemma digitsOf_3:
  "100 \<le> n \<Longrightarrow> n < 1000 \<Longrightarrow>
   digitsOf n = [digitChar (n div 100), digitChar (n div 10 mod 10), digitChar (n mod 10)]"
  by (subst digitsOf.simps) (simp add: digitsOf_2 zdiv_zmult2_eq [symmetric])

lemma digitsOf_4:
  "1000 \<le> n \<Longrightarrow> n < 10000 \<Longrightarrow>
   digitsOf n = [digitChar (n div 1000), digitChar (n div 100 mod 10),
                 digitChar (n div 10 mod 10), digitChar (n mod 10)]"
  by (subst digitsOf.simps) (simp add: digitsOf_3 zdiv_zmult2_eq [symmetric])

lemma digitChar_0: "digitChar 0 = CHR ''0''"
  by (simp add: digitChar_def)

lemma appendInt_2:
  "0 \<le> n \<Longrightarrow> n < 100 \<Longrightarrow> appendInt n 2 = [digitChar (n div 10), digitChar (n mod 10)]"
  by (cases "n < 10") (simp_all add: appendInt_def padInt_def digitsOf_1 digitsOf_2 digitChar_0)

lemma appendInt_0_one: "0 \<le> n \<Longrightarrow> n < 10 \<Longrightarrow> appendInt n 0 = [digitChar n]"
  by (simp add: appendInt_def padInt_def digitsOf_1)

lemma appendInt_0_two:
  "10 \<le> n \<Longrightarrow> n < 100 \<Longrightarrow> appendInt n 0 = [digitChar (n div 10), digitChar (n mod 10)]"
  by (simp add: appendInt_def padInt_def digitsOf_2)

lemma appendInt_4:
  assumes "0 \<le> n" "n < 10000"
  shows "appendInt n 4 = [digitChar (n div 1000), digitChar (n div 100 mod 10),
                          digitChar (n div 10 mod 10), digitChar (n mod 10)]"
proof -
  consider "n < 10" | "10 \<le> n" "n < 100" | "100 \<le> n" "n < 1000" | "1000 \<le> n"
    by linarith
  then show ?thesis
  proof cases
    case 1
    with assms show ?thesis
      by (simp add: appendInt_def padInt_def digitsOf_1 digitChar_0 numeral_3_eq_3)
  next
    case 2
    with assms show ?thesis
      by (simp add: appendInt_def padInt_def digitsOf_2 digitChar_0 numeral_2_eq_2)
  next
    case 3
    with assms show ?thesis
      by (simp add: appendInt_def padInt_def digitsOf_3 digitChar_0)
  next
    case 4
    with assms show ?thesis
      by (simp add: appendInt_def padInt_def digitsOf_4)
  qed
qed

lemma two_digits_val:
  "0 \<le> n \<Longrightarrow> n < 100 \<Longrightarrow>
   digitVal (digitChar (n div 10)) * 10 + digitVal (digitChar (n mod 10)) = n"
  by simp

lemma decimal_4:
  "(n::int) = 1000 * (n div 1000) + 100 * (n div 100 mod 10) + 10 * (n div 10 mod 10) + n mod 10"
proof -
  have a: "n div 100 = n div 10 div 10" by (simp add: zdiv_zmult2_eq [symmetric])
  have b: "n div 1000 = n div 10 div 10 div 10" by (simp add: zdiv_zmult2_eq [symmetric])
  have "n = 10 * (n div 10) + n mod 10" by simp
  moreover have "n div 10 = 10 * (n div 10 div 10) + n div 10 mod 10" by simp
  moreover have "n div 10 div 10 = 10 * (n div 10 div 10 div 10) + n div 10 div 10 mod 10" by simp
  ultimately show ?thesis unfolding a b by linarith
qed

lemma four_digits_val:
  assumes "0 \<le> n" "n < 10000"
  shows "digitsVal [digitChar (n div 1000), digitChar (n div 100 mod 10),
                    digitChar (n div 10 mod 10), digitChar (n mod 10)] = n"
proof -
  have r: "0 \<le> n div 1000" "n div 1000 < 10" using assms by simp_all
  have "digitsVal [digitChar (n div 1000), digitChar (n div 100 mod 10),
                    digitChar (n div 10 mod 10), digitChar (n mod 10)]
        = ((n div 1000 * 10 + n div 100 mod 10) * 10 + n div 10 mod 10) * 10 + n mod 10"
    using r by (simp add: digitsVal_def)
  also have "\<dots> = 1000 * (n div 1000) + 100 * (n div 100 mod 10) + 10 * (n div 10 mod 10) + n mod 10"
    by (simp add: algebra_simps)
  also have "\<dots> = n" using decimal_4 [of n] by simp
  finally show ?thesis .
qed

subsection \<open>The layouts cut into elements\<close>

lemma chunks_1:
  "chunks ''2006-01-02T15:04:05Z07:00'' [] =
     [stdLongYear, Lit ''-'', stdZeroMonth, Lit ''-'', stdZeroDay, Lit ''T'',
      stdHour, Lit '':'', stdZeroMinute, Lit '':'', stdZeroSecond, stdISO8601ColonTZ]"
  by code_simp

lemma chunks_2:
  "chunks ''2006-01-02T15:04:05Z'' [] =
     [stdLongYear, Lit ''-'', stdZeroMonth, Lit ''-'', stdZeroDay, Lit ''T'',
      stdHour, Lit '':'', stdZeroMinute, Lit '':'', stdZeroSecond, Lit ''Z'']"
  by code_simp

lemma chunks_3:
  "chunks ''2006-01-02 15:04:05'' [] =
     [stdLongYear, Lit ''-'', stdZeroMonth, Lit ''-'', stdZeroDay, Lit '' '',
      stdHour, Lit '':'', stdZeroMinute, Lit '':'', stdZeroSecond]"
  by code_simp

lemma chunks_4:
  "chunks ''2006-01-02'' [] = [stdLongYear, Lit ''-'', stdZeroMonth, Lit ''-'', stdZeroDay]"
  by code_simp

lemma chunks_5:
  "chunks ''02-Jan-2006'' [] = [stdZeroDay, Lit ''-'', stdMonth, Lit ''-'', stdLongYear]"
  by code_simp

lemma chunks_6:
  "chunks ''January 02 2006'' [] = [stdLongMonth, Lit '' '', stdZeroDay, Lit '' '', stdLongYear]"
  by code_simp

lemma chunks_7:
  "chunks ''2-Jan-2006'' [] = [stdDay, Lit ''-'', stdMonth, Lit ''-'', stdLongYear]"
  by code_simp

lemma chunks_8:
  "chunks ''2006/01/02'' [] = [stdLongYear, Lit ''/'', stdZeroMonth, Lit ''/'', stdZeroDay]"
  by code_simp

subsection \<open>Letters and month names\<close>

lemma lower_byte_upper:
  "lower_byte (CHR ''A'') = CHR ''a''" "lower_byte (CHR ''B'') = CHR ''b''" "lower_byte (CHR ''C'') = CHR ''c''"
  "lower_byte (CHR ''D'') = CHR ''d''" "lower_byte (CHR ''E'') = CHR ''e''" "lower_byte (CHR ''F'') = CHR ''f''"
  "lower_byte (CHR ''G'') = CHR ''g''" "lower_byte (CHR ''H'') = CHR ''h''" "lower_byte (CHR ''I'') = CHR ''i''"
  "lower_byte (CHR ''J'') = CHR ''j''" "lower_byte (CHR ''K'') = CHR ''k''" "lower_byte (CHR ''L'') = CHR ''l''"
  "lower_byte (CHR ''M'') = CHR ''m''" "lower_byte (CHR ''N'') = CHR ''n''" "lower_byte (CHR ''O'') = CHR ''o''"
  "lower_byte (CHR ''P'') = CHR ''p''" "lower_byte (CHR ''Q'') = CHR ''q''" "lower_byte (CHR ''R'') = CHR ''r''"
  "lower_byte (CHR ''S'') = CHR ''s''" "lower_byte (CHR ''T'') = CHR ''t''" "lower_byte (CHR ''U'') = CHR ''u''"
  "lower_byte (CHR ''V'') = CHR ''v''" "lower_byte (CHR ''W'') = CHR ''w''" "lower_byte (CHR ''X'') = CHR ''x''"
  "lower_byte (CHR ''Y'') = CHR ''y''" "lower_byte (CHR ''Z'') = CHR ''z''"
  by (simp_all add: lower_byte_def upper_letters_def lower_letters_def)

lemma lower_byte_lower:
  "lower_byte (CHR ''a'') = CHR ''a''" "lower_byte (CHR ''b'') = CHR ''b''" "lower_byte (CHR ''c'') = CHR ''c''"
  "lower_byte (CHR ''d'') = CHR ''d''" "lower_byte (CHR ''e'') = CHR ''e''" "lower_byte (CHR ''f'') = CHR ''f''"
  "lower_byte (CHR ''g'') = CHR ''g''" "lower_byte (CHR ''h'') = CHR ''h''" "lower_byte (CHR ''i'') = CHR ''i''"
  "lower_byte (CHR ''j'') = CHR ''j''" "lower_byte (CHR ''k'') = CHR ''k''" "lower_byte (CHR ''l'') = CHR ''l''"
  "lower_byte (CHR ''m'') = CHR ''m''" "lower_byte (CHR ''n'') = CHR ''n''" "lower_byte (CHR ''o'') = CHR ''o''"
  "lower_byte (CHR ''p'') = CHR ''p''" "lower_byte (CHR ''q'') = CHR ''q''" "lower_byte (CHR ''r'') = CHR ''r''"
  "lower_byte (CHR ''s'') = CHR ''s''" "lower_byte (CHR ''t'') = CHR ''t''" "lower_byte (CHR ''u'') = CHR ''u''"
  "lower_byte (CHR ''v'') = CHR ''v''" "lower_byte (CHR ''w'') = CHR ''w''" "lower_byte (CHR ''x'') = CHR ''x''"
  "lower_byte (CHR ''y'') = CHR ''y''" "lower_byte (CHR ''z'') = CHR ''z''"
  by (simp_all add: lower_byte_def upper_letters_def lower_letters_def)

lemmas lower_byte_letter = lower_byte_upper lower_byte_lower

lemma month_range:
  "1 \<le> m \<Longrightarrow> m \<le> 12 \<Longrightarrow> m \<in> {1, 2, 3, 4, 5, 6, 7, 8, 9, 10, 11, (12::int)}"
  by (simp, arith)

lemma lookup_short_month:
  "1 \<le> m \<Longrightarrow> m \<le> 12 \<Longrightarrow>
   lookup shortMonthNames (take 3 (longMonthNames ! nat (m - 1)) @ rest) 0 = Some (m - 1, rest)"
  apply (drule (1) month_range)
  apply (elim insertE emptyE)
  apply (simp_all add: shortMonthNames_def longMonthNames_def lower_byte_letter)
  done

lemma lookup_long_month:
  "1 \<le> m \<Longrightarrow> m \<le> 12 \<Longrightarrow>
   lookup longMonthNames (longMonthNames ! nat (m - 1) @ rest) 0 = Some (m - 1, rest)"
  apply (drule (1) month_range)
  apply (elim insertE emptyE)
  apply (simp_all add: longMonthNames_def lower_byte_letter)
  done

lemma month_name_letter:
  "1 \<le> m \<Longrightarrow> m \<le> 12 \<Longrightarrow>
   \<exists>a r. longMonthNames ! nat (m - 1) = a # r \<and> \<not> isDigit a \<and> \<not> isSpace a \<and>
         take 3 (longMonthNames ! nat (m - 1)) = a # take 2 r"
  apply (drule (1) month_range)
  apply (elim insertE emptyE)
  apply (simp_all add: longMonthNames_def isDigit_def isSpace_def)
  done

subsection \<open>Layouts that do not parse a value\<close>

lemma year_first_fails:
  "\<not> list_all isDigit (take 4 val) \<Longrightarrow> parseChunks (stdLongYear # cs) val st = None"
  by simp

lemma date_only_fails_T:
  assumes "isDigit y1" "isDigit y2" "isDigit y3" "isDigit y4"
    "isDigit m1" "isDigit m2" "isDigit d1" "isDigit d2"
  shows "parseChunks (stdLongYear # Lit ''-'' # stdZeroMonth # Lit ''-'' # stdZeroDay
            # Lit ''T'' # cs)
           [y1, y2, y3, y4, CHR ''-'', m1, m2, CHR ''-'', d1, d2] st = None"
  using assms by (simp add: getnum_def)

lemma date_only_fails_space:
  assumes "isDigit y1" "isDigit y2" "isDigit y3" "isDigit y4"
    "isDigit m1" "isDigit m2" "isDigit d1" "isDigit d2"
  shows "parseChunks (stdLongYear # Lit ''-'' # stdZeroMonth # Lit ''-'' # stdZeroDay
            # Lit '' '' # stdHour # cs)
           [y1, y2, y3, y4, CHR ''-'', m1, m2, CHR ''-'', d1, d2] st = None"
  using assms by (simp add: getnum_def cutspace_def)

lemma space_fails_T:
  assumes "isDigit y1" "isDigit y2" "isDigit y3" "isDigit y4"
    "isDigit m1" "isDigit m2" "isDigit d1" "isDigit d2"
  shows "parseChunks (stdLongYear # Lit ''-'' # stdZeroMonth # Lit ''-'' # stdZeroDay
            # Lit ''T'' # cs)
           (y1 # y2 # y3 # y4 # CHR ''-'' # m1 # m2 # CHR ''-'' # d1 # d2 # CHR '' '' # rest) st = None"
  using assms by (simp add: getnum_def)

lemma slash_fails_dash:
  assumes "isDigit y1" "isDigit y2" "isDigit y3" "isDigit y4"
  shows "parseChunks (stdLongYear # Lit ''-'' # cs)
           (y1 # y2 # y3 # y4 # CHR ''/'' # rest) st = None"
  using assms by simp

lemma zero_day_fails_letter:
  "\<not> isDigit a \<Longrightarrow> parseChunks (stdZeroDay # cs) (a # rest) st = None"
  by (simp add: getnum_def)

lemma zero_day_fails_one_digit:
  "isDigit d1 \<Longrightarrow> parseChunks (stdZeroDay # cs) (d1 # CHR ''-'' # rest) st = None"
  by (simp add: getnum_def)

lemma zero_day_fails_year:
  "isDigit y1 \<Longrightarrow> isDigit y2 \<Longrightarrow> isDigit y3 \<Longrightarrow>
   parseChunks (stdZeroDay # Lit ''-'' # cs) (y1 # y2 # y3 # rest) st = None"
  by (simp add: getnum_def isDigit_neq)

lemma day_fails_year:
  "isDigit y1 \<Longrightarrow> isDigit y2 \<Longrightarrow> isDigit y3 \<Longrightarrow>
   parseChunks (stdDay # Lit ''-'' # cs) (y1 # y2 # y3 # rest) st = None"
  by (simp add: getnum_def isDigit_neq)

lemma isDigit_not_letter:
  "isDigit c \<Longrightarrow> c \<noteq> CHR ''J'' \<and> c \<noteq> CHR ''j'' \<and> c \<noteq> CHR ''F'' \<and> c \<noteq> CHR ''f'' \<and>
     c \<noteq> CHR ''M'' \<and> c \<noteq> CHR ''m'' \<and> c \<noteq> CHR ''A'' \<and> c \<noteq> CHR ''a'' \<and>
     c \<noteq> CHR ''S'' \<and> c \<noteq> CHR ''s'' \<and> c \<noteq> CHR ''O'' \<and> c \<noteq> CHR ''o'' \<and>
     c \<noteq> CHR ''N'' \<and> c \<noteq> CHR ''n'' \<and> c \<noteq> CHR ''D'' \<and> c \<noteq> CHR ''d''"
  by (erule isDigit_cases) simp_all

lemma long_month_fails_digit:
  "isDigit c \<Longrightarrow> parseChunks (stdLongMonth # cs) (c # rest) st = None"
  using isDigit_not_letter [of c]
  by (simp add: longMonthNames_def lower_byte_letter)

subsection \<open>Layouts that parse a value\<close>

lemma finishParse_date:
  "0 < M \<Longrightarrow> 1 \<le> D \<Longrightarrow> D \<le> daysIn M Y \<Longrightarrow>
   finishParse \<lparr>p_year = Y, p_month = M, p_day = D, p_hour = h, p_min = mi, p_sec = s,
                p_nsec = 0, p_utc = False, p_zoneOffset = - 1\<rparr>
     = Some (Date Y M D h mi s 0 0)"
  by (simp add: finishParse_def Let_def)

lemma finishParse_utc:
  "0 < M \<Longrightarrow> 1 \<le> D \<Longrightarrow> D \<le> daysIn M Y \<Longrightarrow>
   finishParse \<lparr>p_year = Y, p_month = M, p_day = D, p_hour = h, p_min = mi, p_sec = s,
                p_nsec = 0, p_utc = True, p_zoneOffset = - 1\<rparr>
     = Some (Date Y M D h mi s 0 0)"
  by (simp add: finishParse_def Let_def)

lemma finishParse_zone:
  "0 < M \<Longrightarrow> 1 \<le> D \<Longrightarrow> D \<le> daysIn M Y \<Longrightarrow> off \<noteq> - 1 \<Longrightarrow>
   finishParse \<lparr>p_year = Y, p_month = M, p_day = D, p_hour = h, p_min = mi, p_sec = s,
                p_nsec = 0, p_utc = False, p_zoneOffset = off\<rparr>
     = Some (Date Y M D h mi s 0 off)"
  by (simp add: finishParse_def Let_def)

lemma parse_date_sep:
  assumes "isDigit y1" "isDigit y2" "isDigit y3" "isDigit y4"
    "isDigit m1" "isDigit m2" "isDigit d1" "isDigit d2"
    and "sep \<noteq> CHR '' ''"
    and "0 < digitVal m1 * 10 + digitVal m2" "digitVal m1 * 10 + digitVal m2 \<le> 12"
  shows "parseChunks [stdLongYear, Lit [sep], stdZeroMonth, Lit [sep], stdZeroDay]
           [y1, y2, y3, y4, sep, m1, m2, sep, d1, d2] parsed0
         = Some \<lparr>p_year = digitsVal [y1, y2, y3, y4],
                 p_month = digitVal m1 * 10 + digitVal m2,
                 p_day = digitVal d1 * 10 + digitVal d2,
                 p_hour = 0, p_min = 0, p_sec = 0, p_nsec = 0, p_utc = False,
                 p_zoneOffset = - 1\<rparr>"
  using assms by (simp add: getnum_def parsed0_def)

lemma parse_clock:
  assumes "isDigit h1" "isDigit h2" "isDigit i1" "isDigit i2" "isDigit s1" "isDigit s2"
    and "digitVal h1 * 10 + digitVal h2 < 24" "0 \<le> digitVal h1 * 10 + digitVal h2"
    and "digitVal i1 * 10 + digitVal i2 < 60" "0 \<le> digitVal i1 * 10 + digitVal i2"
    and "digitVal s1 * 10 + digitVal s2 < 60" "0 \<le> digitVal s1 * 10 + digitVal s2"
    and "rest = [] \<or> \<not> commaOrPeriod (hd rest)"
  shows "parseChunks (stdHour # Lit '':'' # stdZeroMinute # Lit '':'' # stdZeroSecond # cs)
           (h1 # h2 # CHR '':'' # i1 # i2 # CHR '':'' # s1 # s2 # rest) st
         = parseChunks cs rest
             (st\<lparr>p_hour := digitVal h1 * 10 + digitVal h2,
                 p_min := digitVal i1 * 10 + digitVal i2,
                 p_sec := digitVal s1 * 10 + digitVal s2\<rparr>)"
  using assms by (cases rest) (auto simp add: getnum_def)

lemma parse_date_then:
  assumes "isDigit y1" "isDigit y2" "isDigit y3" "isDigit y4"
    "isDigit m1" "isDigit m2" "isDigit d1" "isDigit d2"
    and "0 < digitVal m1 * 10 + digitVal m2" "digitVal m1 * 10 + digitVal m2 \<le> 12"
    and "sep \<noteq> CHR '' ''"
  shows "parseChunks (stdLongYear # Lit ''-'' # stdZeroMonth # Lit ''-'' # stdZeroDay
            # Lit [sep] # cs)
           (y1 # y2 # y3 # y4 # CHR ''-'' # m1 # m2 # CHR ''-'' # d1 # d2 # sep # rest) st
         = parseChunks cs rest
             (st\<lparr>p_year := digitsVal [y1, y2, y3, y4],
                 p_month := digitVal m1 * 10 + digitVal m2,
                 p_day := digitVal d1 * 10 + digitVal d2\<rparr>)"
  using assms by (simp add: getnum_def)

lemma parse_date_then_space:
  assumes "isDigit y1" "isDigit y2" "isDigit y3" "isDigit y4"
    "isDigit m1" "isDigit m2" "isDigit d1" "isDigit d2" "isDigit h1"
    and "0 < digitVal m1 * 10 + digitVal m2" "digitVal m1 * 10 + digitVal m2 \<le> 12"
  shows "parseChunks (stdLongYear # Lit ''-'' # stdZeroMonth # Lit ''-'' # stdZeroDay
            # Lit '' '' # cs)
           (y1 # y2 # y3 # y4 # CHR ''-'' # m1 # m2 # CHR ''-'' # d1 # d2 # CHR '' '' # h1 # rest) st
         = parseChunks cs (h1 # rest)
             (st\<lparr>p_year := digitsVal [y1, y2, y3, y4],
                 p_month := digitVal m1 * 10 + digitVal m2,
                 p_day := digitVal d1 * 10 + digitVal d2\<rparr>)"
  using assms by (simp add: getnum_def cutspace_def isDigit_neq)

lemma parse_zone_Z:
  "parseChunks [stdISO8601ColonTZ] ''Z'' st = Some (st\<lparr>p_utc := True\<rparr>)"
  by simp

lemma parse_lit_Z: "parseChunks [Lit ''Z''] ''Z'' st = Some st"
  by simp

lemma parse_zone_offset:
  assumes "isDigit z1" "isDigit z2" "isDigit z3" "isDigit z4"
    and "digitVal z1 * 10 + digitVal z2 \<le> 24" "digitVal z3 * 10 + digitVal z4 \<le> 60"
    and "sg = CHR ''+'' \<or> sg = CHR ''-''"
  shows "parseChunks [stdISO8601ColonTZ] [sg, z1, z2, CHR '':'', z3, z4] st
         = Some (st\<lparr>p_zoneOffset :=
              (if sg = CHR ''+'' then 1 else - 1) *
                (((digitVal z1 * 10 + digitVal z2) * 60 + (digitVal z3 * 10 + digitVal z4)) * 60)\<rparr>)"
  using assms by (auto simp add: getnum_def)

subsection \<open>The text that \<open>Format\<close> prints\<close>

lemma daysIn_le_31: "1 \<le> m \<Longrightarrow> m \<le> 12 \<Longrightarrow> daysIn m y \<le> 31"
  apply (drule (1) month_range)
  apply (elim insertE emptyE)
  apply (simp_all add: daysIn_def daysBefore_def)
  done

lemma two_digit_facts:
  assumes "0 \<le> n" "n < 100"
  obtains a b where "appendInt n 2 = [a, b]" "isDigit a" "isDigit b"
    "digitVal a * 10 + digitVal b = n"
    "appendInt n 0 = (if n < 10 then [b] else [a, b])" "n < 10 \<longrightarrow> digitVal b = n"
proof
  show "appendInt n 2 = [digitChar (n div 10), digitChar (n mod 10)]"
    using assms by (rule appendInt_2)
  show "isDigit (digitChar (n div 10))" "isDigit (digitChar (n mod 10))"
    using assms by simp_all
  show "digitVal (digitChar (n div 10)) * 10 + digitVal (digitChar (n mod 10)) = n"
    using assms by (rule two_digits_val)
  show "appendInt n 0 = (if n < 10 then [digitChar (n mod 10)]
                         else [digitChar (n div 10), digitChar (n mod 10)])"
    using assms by (simp add: appendInt_0_one appendInt_0_two)
  show "n < 10 \<longrightarrow> digitVal (digitChar (n mod 10)) = n"
    using assms by simp
qed

lemma four_digit_facts:
  assumes "0 \<le> n" "n < 10000"
  obtains a b c d where "appendInt n 4 = [a, b, c, d]"
    "isDigit a" "isDigit b" "isDigit c" "isDigit d" "digitsVal [a, b, c, d] = n"
proof
  show "appendInt n 4 = [digitChar (n div 1000), digitChar (n div 100 mod 10),
                          digitChar (n div 10 mod 10), digitChar (n mod 10)]"
    using assms by (rule appendInt_4)
  show "isDigit (digitChar (n div 1000))" "isDigit (digitChar (n div 100 mod 10))"
    "isDigit (digitChar (n div 10 mod 10))" "isDigit (digitChar (n mod 10))"
    using assms by simp_all
  show "digitsVal [digitChar (n div 1000), digitChar (n div 100 mod 10),
                    digitChar (n div 10 mod 10), digitChar (n mod 10)] = n"
    using assms by (rule four_digits_val)
qed

lemma quo_nonneg: "0 \<le> a \<Longrightarrow> 0 < b \<Longrightarrow> quo a b = a div b"
  by (cases "a = 0") (simp_all add: quo_def)

lemma zone_facts:
  assumes "off mod 60 = 0" "- 86400 < off" "off < 86400" "off \<noteq> 0"
  obtains sg z1 z2 z3 z4 where
    "formatZone off = [sg, z1, z2, CHR '':'', z3, z4]"
    "isDigit z1" "isDigit z2" "isDigit z3" "isDigit z4"
    "digitVal z1 * 10 + digitVal z2 \<le> 24" "digitVal z3 * 10 + digitVal z4 \<le> 60"
    "sg = CHR ''+'' \<or> sg = CHR ''-''"
    "(if sg = CHR ''+'' then 1 else - 1) *
       (((digitVal z1 * 10 + digitVal z2) * 60 + (digitVal z3 * 10 + digitVal z4)) * 60) = off"
proof -
  define zone where "zone = \<bar>off\<bar> div 60"
  have "\<bar>off\<bar> mod 60 = 0"
    using assms(1) by (cases "0 \<le> off") (simp_all add: zmod_zminus1_eq_if)
  then have "60 dvd \<bar>off\<bar>" by (rule mod_0_imp_dvd)
  then have ab: "\<bar>off\<bar> = zone * 60" by (simp add: zone_def)
  have zr: "0 < zone" "zone < 1440"
    using ab assms(2-4) by linarith+
  have hr: "0 \<le> zone div 60" "zone div 60 < 24" "0 \<le> zone mod 60" "zone mod 60 < 60"
    using zr by simp_all
  have hm: "zone div 60 * 60 + zone mod 60 = zone" by simp
  have b1: "0 \<le> zone div 60" "zone div 60 < 100" using hr by simp_all
  have b2: "0 \<le> zone mod 60" "zone mod 60 < 100" using hr by simp_all
  obtain z1 z2 where h: "appendInt (zone div 60) 2 = [z1, z2]" "isDigit z1" "isDigit z2"
      "digitVal z1 * 10 + digitVal z2 = zone div 60"
    by (rule two_digit_facts [OF b1]) blast
  obtain z3 z4 where m: "appendInt (zone mod 60) 2 = [z3, z4]" "isDigit z3" "isDigit z4"
      "digitVal z3 * 10 + digitVal z4 = zone mod 60"
    by (rule two_digit_facts [OF b2]) blast
  have v: "((digitVal z1 * 10 + digitVal z2) * 60 + (digitVal z3 * 10 + digitVal z4)) * 60
      = \<bar>off\<bar>"
    using hm ab by (simp add: h(4) m(4))
  have r: "digitVal z1 * 10 + digitVal z2 \<le> 24" "digitVal z3 * 10 + digitVal z4 \<le> 60"
    using hr by (simp_all add: h(4) m(4))
  show ?thesis
  proof (cases "0 < off")
    case True
    then have q: "quo off 60 = zone" using quo_nonneg [of off 60] by (simp add: zone_def)
    have f: "formatZone off = [CHR ''+'', z1, z2, CHR '':'', z3, z4]"
      using assms(4) zr(1) by (simp add: formatZone_def q Let_def quo_nonneg h(1) m(1))
    have "(if CHR ''+'' = CHR ''+'' then 1 else - 1) *
       (((digitVal z1 * 10 + digitVal z2) * 60 + (digitVal z3 * 10 + digitVal z4)) * 60) = off"
      using True v by simp
    with f show ?thesis
      using that [of "CHR ''+''" z1 z2 z3 z4] h(2,3) m(2,3) r by blast
  next
    case False
    with assms(4) have neg: "off < 0" by simp
    then have q: "quo off 60 = - zone"
      by (simp add: quo_def zone_def)
    have f: "formatZone off = [CHR ''-'', z1, z2, CHR '':'', z3, z4]"
      using assms(4) zr(1) by (simp add: formatZone_def q Let_def quo_nonneg h(1) m(1))
    have "(if CHR ''-'' = CHR ''+'' then 1 else - 1) *
       (((digitVal z1 * 10 + digitVal z2) * 60 + (digitVal z3 * 10 + digitVal z4)) * 60) = off"
      using neg v by simp
    with f show ?thesis
      using that [of "CHR ''-''" z1 z2 z3 z4] h(2,3) m(2,3) r by blast
  qed
qed

lemma TrimSpace_id:
  "s \<noteq> [] \<Longrightarrow> \<not> isSpace (hd s) \<Longrightarrow> \<not> isSpace (last s) \<Longrightarrow> TrimSpace s = s"
proof -
  assume a: "s \<noteq> []" "\<not> isSpace (hd s)" "\<not> isSpace (last s)"
  then have "dropWhile isSpace s = s" by (cases s) simp_all
  moreover from a have "dropWhile isSpace (rev s) = rev s"
    by (cases "rev s") (simp_all add: last_rev [symmetric] hd_rev)
  ultimately show ?thesis by (simp add: TrimSpace_def)
qed

subsection \<open>The round trip, layout by layout\<close>

lemma validCivil_bounds:
  assumes "validCivil c"
  shows "0 \<le> c_year c" "c_year c < 10000" "0 \<le> c_month c" "c_month c < 100"
    "0 \<le> c_day c" "c_day c < 100" "0 \<le> c_hour c" "c_hour c < 100"
    "0 \<le> c_min c" "c_min c < 100" "0 \<le> c_sec c" "c_sec c < 100"
    "0 < c_month c" "c_month c \<le> 12" "1 \<le> c_day c" "c_day c \<le> daysIn (c_month c) (c_year c)"
    "c_hour c < 24" "c_min c < 60" "c_sec c < 60"
proof -
  from assms have m: "1 \<le> c_month c" "c_month c \<le> 12" by (simp_all add: validCivil_def)
  from assms have "c_day c \<le> daysIn (c_month c) (c_year c)" by (simp add: validCivil_def)
  with daysIn_le_31 [OF m, of "c_year c"] have "c_day c \<le> 31" by linarith
  then show "c_day c < 100" by simp
qed (use assms in \<open>simp_all add: validCivil_def\<close>)

lemma parse_day_mon_year:
  assumes "isDigit d1" "isDigit d2" "isDigit y1" "isDigit y2" "isDigit y3" "isDigit y4"
    and "1 \<le> m" "m \<le> 12"
  shows "parseChunks [stdZeroDay, Lit ''-'', stdMonth, Lit ''-'', stdLongYear]
           (d1 # d2 # CHR ''-'' # take 3 (longMonthNames ! nat (m - 1)) @ CHR ''-'' # [y1, y2, y3, y4])
           parsed0
         = Some \<lparr>p_year = digitsVal [y1, y2, y3, y4], p_month = m,
                 p_day = digitVal d1 * 10 + digitVal d2,
                 p_hour = 0, p_min = 0, p_sec = 0, p_nsec = 0, p_utc = False,
                 p_zoneOffset = - 1\<rparr>"
  using assms by (simp add: getnum_def parsed0_def lookup_short_month)

lemma parse_d_mon_year:
  assumes "isDigit d2" "isDigit y1" "isDigit y2" "isDigit y3" "isDigit y4"
    and "1 \<le> m" "m \<le> 12"
  shows "parseChunks [stdDay, Lit ''-'', stdMonth, Lit ''-'', stdLongYear]
           (d2 # CHR ''-'' # take 3 (longMonthNames ! nat (m - 1)) @ CHR ''-'' # [y1, y2, y3, y4])
           parsed0
         = Some \<lparr>p_year = digitsVal [y1, y2, y3, y4], p_month = m,
                 p_day = digitVal d2,
                 p_hour = 0, p_min = 0, p_sec = 0, p_nsec = 0, p_utc = False,
                 p_zoneOffset = - 1\<rparr>"
  using assms by (simp add: getnum_def parsed0_def lookup_short_month)

lemma parse_month_day_year:
  assumes "isDigit d1" "isDigit d2" "isDigit y1" "isDigit y2" "isDigit y3" "isDigit y4"
    and "1 \<le> m" "m \<le> 12"
  shows "parseChunks [stdLongMonth, Lit '' '', stdZeroDay, Lit '' '', stdLongYear]
           (longMonthNames ! nat (m - 1) @ CHR '' '' # d1 # d2 # CHR '' '' # [y1, y2, y3, y4])
           parsed0
         = Some \<lparr>p_year = digitsVal [y1, y2, y3, y4], p_month = m,
                 p_day = digitVal d1 * 10 + digitVal d2,
                 p_hour = 0, p_min = 0, p_sec = 0, p_nsec = 0, p_utc = False,
                 p_zoneOffset = - 1\<rparr>"
  using assms by (simp add: getnum_def parsed0_def lookup_long_month cutspace_def isDigit_neq)

lemma roundtrip_4:
  assumes v: "validCivil c" and z: "c_hour c = 0" "c_min c = 0" "c_sec c = 0" "c_off c = 0"
  shows "parseDate (Format ''2006-01-02'' c) = civilTime c"
proof -
  note b = validCivil_bounds [OF v]
  obtain y1 y2 y3 y4 where y: "appendInt (c_year c) 4 = [y1, y2, y3, y4]"
      "isDigit y1" "isDigit y2" "isDigit y3" "isDigit y4"
      "digitsVal [y1, y2, y3, y4] = c_year c"
    by (rule four_digit_facts [OF b(1,2)])
  obtain m1 m2 where m: "appendInt (c_month c) 2 = [m1, m2]" "isDigit m1" "isDigit m2"
      "digitVal m1 * 10 + digitVal m2 = c_month c"
    by (rule two_digit_facts [OF b(3,4)]) blast
  have mr: "0 < digitVal m1 * 10 + digitVal m2" "digitVal m1 * 10 + digitVal m2 \<le> 12"
    using b(13,14) by (simp_all add: m(4))
  obtain d1 d2 where d: "appendInt (c_day c) 2 = [d1, d2]" "isDigit d1" "isDigit d2"
      "digitVal d1 * 10 + digitVal d2 = c_day c"
      "appendInt (c_day c) 0 = (if c_day c < 10 then [d2] else [d1, d2])"
      "c_day c < 10 \<longrightarrow> digitVal d2 = c_day c"
    by (rule two_digit_facts [OF b(5,6)])
  let ?S = "[y1, y2, y3, y4, CHR ''-'', m1, m2, CHR ''-'', d1, d2]"
  have S: "Format ''2006-01-02'' c = ?S"
    unfolding Format_def chunks_4 by (simp add: y(1) m(1) d(1))
  have T: "TrimSpace ?S = ?S"
    by (rule TrimSpace_id) (simp_all add: y(2) d(3))
  have p1: "Parse ''2006-01-02T15:04:05Z07:00'' ?S = None"
    unfolding Parse_def chunks_1
    by (simp only: date_only_fails_T [OF y(2-5) m(2,3) d(2,3)] option.case)
  have p2: "Parse ''2006-01-02T15:04:05Z'' ?S = None"
    unfolding Parse_def chunks_2
    by (simp only: date_only_fails_T [OF y(2-5) m(2,3) d(2,3)] option.case)
  have p3: "Parse ''2006-01-02 15:04:05'' ?S = None"
    unfolding Parse_def chunks_3
    by (simp only: date_only_fails_space [OF y(2-5) m(2,3) d(2,3)] option.case)
  have "CHR ''-'' \<noteq> CHR '' ''" by simp
  note ps = parse_date_sep [OF y(2-5) m(2,3) d(2,3) this mr]
  have p4: "Parse ''2006-01-02'' ?S = Some (civilTime c)"
    unfolding Parse_def chunks_4
    using ps b(13-16) z
    by (simp add: y(6) m(4) d(4) finishParse_date civilTime_def
        del: parseChunks.simps parseStd.simps)
  show ?thesis
    by (simp add: parseDate_def S T formats_def p1 p2 p3 p4)
qed

lemma roundtrip_8:
  assumes v: "validCivil c" and z: "c_hour c = 0" "c_min c = 0" "c_sec c = 0" "c_off c = 0"
  shows "parseDate (Format ''2006/01/02'' c) = civilTime c"
proof -
  note b = validCivil_bounds [OF v]
  obtain y1 y2 y3 y4 where y: "appendInt (c_year c) 4 = [y1, y2, y3, y4]"
      "isDigit y1" "isDigit y2" "isDigit y3" "isDigit y4"
      "digitsVal [y1, y2, y3, y4] = c_year c"
    by (rule four_digit_facts [OF b(1,2)])
  obtain m1 m2 where m: "appendInt (c_month c) 2 = [m1, m2]" "isDigit m1" "isDigit m2"
      "digitVal m1 * 10 + digitVal m2 = c_month c"
    by (rule two_digit_facts [OF b(3,4)]) blast
  have mr: "0 < digitVal m1 * 10 + digitVal m2" "digitVal m1 * 10 + digitVal m2 \<le> 12"
    using b(13,14) by (simp_all add: m(4))
  obtain d1 d2 where d: "appendInt (c_day c) 2 = [d1, d2]" "isDigit d1" "isDigit d2"
      "digitVal d1 * 10 + digitVal d2 = c_day c"
      "appendInt (c_day c) 0 = (if c_day c < 10 then [d2] else [d1, d2])"
      "c_day c < 10 \<longrightarrow> digitVal d2 = c_day c"
    by (rule two_digit_facts [OF b(5,6)])
  let ?S = "[y1, y2, y3, y4, CHR ''/'', m1, m2, CHR ''/'', d1, d2]"
  have S: "Format ''2006/01/02'' c = ?S"
    unfolding Format_def chunks_8 by (simp add: y(1) m(1) d(1))
  have T: "TrimSpace ?S = ?S"
    by (rule TrimSpace_id) (simp_all add: y(2) d(3))
  have p1: "Parse ''2006-01-02T15:04:05Z07:00'' ?S = None"
    unfolding Parse_def chunks_1
    by (simp only: slash_fails_dash [OF y(2-5)] option.case)
  have p2: "Parse ''2006-01-02T15:04:05Z'' ?S = None"
    unfolding Parse_def chunks_2
    by (simp only: slash_fails_dash [OF y(2-5)] option.case)
  have p3: "Parse ''2006-01-02 15:04:05'' ?S = None"
    unfolding Parse_def chunks_3
    by (simp only: slash_fails_dash [OF y(2-5)] option.case)
  have p4: "Parse ''2006-01-02'' ?S = None"
    unfolding Parse_def chunks_4
    by (simp only: slash_fails_dash [OF y(2-5)] option.case)
  have p5: "Parse ''02-Jan-2006'' ?S = None"
    unfolding Parse_def chunks_5
    by (simp only: zero_day_fails_year [OF y(2-4)] option.case)
  have p6: "Parse ''January 02 2006'' ?S = None"
    unfolding Parse_def chunks_6
    by (simp only: long_month_fails_digit [OF y(2)] option.case)
  have p7: "Parse ''2-Jan-2006'' ?S = None"
    unfolding Parse_def chunks_7
    by (simp only: day_fails_year [OF y(2-4)] option.case)
  have "CHR ''/'' \<noteq> CHR '' ''" by simp
  note ps = parse_date_sep [OF y(2-5) m(2,3) d(2,3) this mr]
  have p8: "Parse ''2006/01/02'' ?S = Some (civilTime c)"
    unfolding Parse_def chunks_8
    using ps b(13-16) z
    by (simp add: y(6) m(4) d(4) finishParse_date civilTime_def
        del: parseChunks.simps parseStd.simps)
  show ?thesis
    by (simp add: parseDate_def S T formats_def p1 p2 p3 p4 p5 p6 p7 p8)
qed

lemma roundtrip_3:
  assumes v: "validCivil c" and z: "c_off c = 0"
  shows "parseDate (Format ''2006-01-02 15:04:05'' c) = civilTime c"
proof -
  note b = validCivil_bounds [OF v]
  obtain y1 y2 y3 y4 where y: "appendInt (c_year c) 4 = [y1, y2, y3, y4]"
      "isDigit y1" "isDigit y2" "isDigit y3" "isDigit y4"
      "digitsVal [y1, y2, y3, y4] = c_year c"
    by (rule four_digit_facts [OF b(1,2)])
  obtain m1 m2 where m: "appendInt (c_month c) 2 = [m1, m2]" "isDigit m1" "isDigit m2"
      "digitVal m1 * 10 + digitVal m2 = c_month c"
    by (rule two_digit_facts [OF b(3,4)]) blast
  have mr: "0 < digitVal m1 * 10 + digitVal m2" "digitVal m1 * 10 + digitVal m2 \<le> 12"
    using b(13,14) by (simp_all add: m(4))
  obtain d1 d2 where d: "appendInt (c_day c) 2 = [d1, d2]" "isDigit d1" "isDigit d2"
      "digitVal d1 * 10 + digitVal d2 = c_day c"
      "appendInt (c_day c) 0 = (if c_day c < 10 then [d2] else [d1, d2])"
      "c_day c < 10 \<longrightarrow> digitVal d2 = c_day c"
    by (rule two_digit_facts [OF b(5,6)])
  obtain h1 h2 where h: "appendInt (c_hour c) 2 = [h1, h2]" "isDigit h1" "isDigit h2"
      "digitVal h1 * 10 + digitVal h2 = c_hour c"
    by (rule two_digit_facts [OF b(7,8)]) blast
  obtain i1 i2 where i: "appendInt (c_min c) 2 = [i1, i2]" "isDigit i1" "isDigit i2"
      "digitVal i1 * 10 + digitVal i2 = c_min c"
    by (rule two_digit_facts [OF b(9,10)]) blast
  obtain s1 s2 where s: "appendInt (c_sec c) 2 = [s1, s2]" "isDigit s1" "isDigit s2"
      "digitVal s1 * 10 + digitVal s2 = c_sec c"
    by (rule two_digit_facts [OF b(11,12)]) blast
  have tr: "digitVal h1 * 10 + digitVal h2 < 24" "0 \<le> digitVal h1 * 10 + digitVal h2"
      "digitVal i1 * 10 + digitVal i2 < 60" "0 \<le> digitVal i1 * 10 + digitVal i2"
      "digitVal s1 * 10 + digitVal s2 < 60" "0 \<le> digitVal s1 * 10 + digitVal s2"
    using b(7,9,11,17,18,19) by (simp_all add: h(4) i(4) s(4))
  let ?S = "[y1, y2, y3, y4, CHR ''-'', m1, m2, CHR ''-'', d1, d2, CHR '' '',
             h1, h2, CHR '':'', i1, i2, CHR '':'', s1, s2]"
  have S: "Format ''2006-01-02 15:04:05'' c = ?S"
    unfolding Format_def chunks_3 by (simp add: y(1) m(1) d(1) h(1) i(1) s(1))
  have T: "TrimSpace ?S = ?S"
    by (rule TrimSpace_id) (simp_all add: y(2) s(3))
  have p1: "Parse ''2006-01-02T15:04:05Z07:00'' ?S = None"
    unfolding Parse_def chunks_1
    by (simp only: space_fails_T [OF y(2-5) m(2,3) d(2,3)] option.case)
  have p2: "Parse ''2006-01-02T15:04:05Z'' ?S = None"
    unfolding Parse_def chunks_2
    by (simp only: space_fails_T [OF y(2-5) m(2,3) d(2,3)] option.case)
  have e: "[] = [] \<or> \<not> commaOrPeriod (hd [])" by simp
  have p3: "Parse ''2006-01-02 15:04:05'' ?S = Some (civilTime c)"
    unfolding Parse_def chunks_3
    using b(13-16) z
    by (simp add: parse_date_then_space [OF y(2-5) m(2,3) d(2,3) h(2) mr]
        parse_clock [OF h(2,3) i(2,3) s(2,3) tr e] parsed0_def
        y(6) m(4) d(4) h(4) i(4) s(4) finishParse_date civilTime_def
        del: parseChunks.simps(2) parseStd.simps)
  show ?thesis
    by (simp add: parseDate_def S T formats_def p1 p2 p3)
qed

lemma roundtrip_1:
  assumes v: "validCivil c"
  shows "parseDate (Format ''2006-01-02T15:04:05Z07:00'' c) = civilTime c"
proof -
  note b = validCivil_bounds [OF v]
  obtain y1 y2 y3 y4 where y: "appendInt (c_year c) 4 = [y1, y2, y3, y4]"
      "isDigit y1" "isDigit y2" "isDigit y3" "isDigit y4"
      "digitsVal [y1, y2, y3, y4] = c_year c"
    by (rule four_digit_facts [OF b(1,2)])
  obtain m1 m2 where m: "appendInt (c_month c) 2 = [m1, m2]" "isDigit m1" "isDigit m2"
      "digitVal m1 * 10 + digitVal m2 = c_month c"
    by (rule two_digit_facts [OF b(3,4)]) blast
  have mr: "0 < digitVal m1 * 10 + digitVal m2" "digitVal m1 * 10 + digitVal m2 \<le> 12"
    using b(13,14) by (simp_all add: m(4))
  obtain d1 d2 where d: "appendInt (c_day c) 2 = [d1, d2]" "isDigit d1" "isDigit d2"
      "digitVal d1 * 10 + digitVal d2 = c_day c"
      "appendInt (c_day c) 0 = (if c_day c < 10 then [d2] else [d1, d2])"
      "c_day c < 10 \<longrightarrow> digitVal d2 = c_day c"
    by (rule two_digit_facts [OF b(5,6)])
  obtain h1 h2 where h: "appendInt (c_hour c) 2 = [h1, h2]" "isDigit h1" "isDigit h2"
      "digitVal h1 * 10 + digitVal h2 = c_hour c"
    by (rule two_digit_facts [OF b(7,8)]) blast
  obtain i1 i2 where i: "appendInt (c_min c) 2 = [i1, i2]" "isDigit i1" "isDigit i2"
      "digitVal i1 * 10 + digitVal i2 = c_min c"
    by (rule two_digit_facts [OF b(9,10)]) blast
  obtain s1 s2 where s: "appendInt (c_sec c) 2 = [s1, s2]" "isDigit s1" "isDigit s2"
      "digitVal s1 * 10 + digitVal s2 = c_sec c"
    by (rule two_digit_facts [OF b(11,12)]) blast
  have tr: "digitVal h1 * 10 + digitVal h2 < 24" "0 \<le> digitVal h1 * 10 + digitVal h2"
      "digitVal i1 * 10 + digitVal i2 < 60" "0 \<le> digitVal i1 * 10 + digitVal i2"
      "digitVal s1 * 10 + digitVal s2 < 60" "0 \<le> digitVal s1 * 10 + digitVal s2"
    using b(7,9,11,17,18,19) by (simp_all add: h(4) i(4) s(4))
  have sepT: "CHR ''T'' \<noteq> CHR '' ''" by simp
  show ?thesis
  proof (cases "c_off c = 0")
    case True
    let ?S = "[y1, y2, y3, y4, CHR ''-'', m1, m2, CHR ''-'', d1, d2, CHR ''T'',
               h1, h2, CHR '':'', i1, i2, CHR '':'', s1, s2, CHR ''Z'']"
    have S: "Format ''2006-01-02T15:04:05Z07:00'' c = ?S"
      unfolding Format_def chunks_1
      by (simp add: y(1) m(1) d(1) h(1) i(1) s(1) formatZone_def True)
    have nz: "\<not> isSpace (CHR ''Z'')" by (simp add: isSpace_def)
    have T: "TrimSpace ?S = ?S"
      by (rule TrimSpace_id) (simp_all add: y(2) nz)
    have e: "''Z'' = [] \<or> \<not> commaOrPeriod (hd ''Z'')" by (simp add: commaOrPeriod_def)
    have p1: "Parse ''2006-01-02T15:04:05Z07:00'' ?S = Some (civilTime c)"
      unfolding Parse_def chunks_1
      using b(13-16) True
      by (simp add: parse_date_then [OF y(2-5) m(2,3) d(2,3) mr sepT]
          parse_clock [OF h(2,3) i(2,3) s(2,3) tr e] parse_zone_Z parsed0_def
          y(6) m(4) d(4) h(4) i(4) s(4) finishParse_utc civilTime_def
          del: parseChunks.simps parseStd.simps)
    show ?thesis
      by (simp add: parseDate_def S T formats_def p1)
  next
    case False
    from v have zb: "c_off c mod 60 = 0" "- 86400 < c_off c" "c_off c < 86400"
      by (simp_all add: validCivil_def)
    obtain sg z1 z2 z3 z4 where zf:
      "formatZone (c_off c) = [sg, z1, z2, CHR '':'', z3, z4]"
      "isDigit z1" "isDigit z2" "isDigit z3" "isDigit z4"
      "digitVal z1 * 10 + digitVal z2 \<le> 24" "digitVal z3 * 10 + digitVal z4 \<le> 60"
      "sg = CHR ''+'' \<or> sg = CHR ''-''"
      "(if sg = CHR ''+'' then 1 else - 1) *
         (((digitVal z1 * 10 + digitVal z2) * 60 + (digitVal z3 * 10 + digitVal z4)) * 60)
       = c_off c"
      by (rule zone_facts [OF zb False])
    let ?S = "[y1, y2, y3, y4, CHR ''-'', m1, m2, CHR ''-'', d1, d2, CHR ''T'',
               h1, h2, CHR '':'', i1, i2, CHR '':'', s1, s2, sg, z1, z2, CHR '':'', z3, z4]"
    have S: "Format ''2006-01-02T15:04:05Z07:00'' c = ?S"
      unfolding Format_def chunks_1
      by (simp add: y(1) m(1) d(1) h(1) i(1) s(1) zf(1))
    have T: "TrimSpace ?S = ?S"
      by (rule TrimSpace_id) (simp_all add: y(2) zf(5))
    have e: "[sg, z1, z2, CHR '':'', z3, z4] = []
        \<or> \<not> commaOrPeriod (hd [sg, z1, z2, CHR '':'', z3, z4])"
      using zf(8) by (auto simp add: commaOrPeriod_def)
    from zb(1) have no: "c_off c \<noteq> - 1" by auto
    have pz: "parseChunks [stdISO8601ColonTZ] [sg, z1, z2, CHR '':'', z3, z4] st
        = Some (st\<lparr>p_zoneOffset := c_off c\<rparr>)" for st
      using parse_zone_offset [OF zf(2-8), of st] unfolding zf(9) .
    have p1: "Parse ''2006-01-02T15:04:05Z07:00'' ?S = Some (civilTime c)"
      unfolding Parse_def chunks_1
      using b(13-16) no
      by (simp add: parse_date_then [OF y(2-5) m(2,3) d(2,3) mr sepT]
          parse_clock [OF h(2,3) i(2,3) s(2,3) tr e]
          pz parsed0_def
          y(6) m(4) d(4) h(4) i(4) s(4) finishParse_zone civilTime_def
          del: parseChunks.simps parseStd.simps)
    show ?thesis
      by (simp add: parseDate_def S T formats_def p1)
  qed
qed

lemma roundtrip_2:
  assumes v: "validCivil c" and z: "c_off c = 0"
  shows "parseDate (Format ''2006-01-02T15:04:05Z'' c) = civilTime c"
proof -
  have "Format ''2006-01-02T15:04:05Z'' c = Format ''2006-01-02T15:04:05Z07:00'' c"
    unfolding Format_def chunks_1 chunks_2 by (simp add: formatZone_def z)
  with roundtrip_1 [OF v] show ?thesis by simp
qed

lemma roundtrip_5:
  assumes v: "validCivil c" and z: "c_hour c = 0" "c_min c = 0" "c_sec c = 0" "c_off c = 0"
  shows "parseDate (Format ''02-Jan-2006'' c) = civilTime c"
proof -
  note b = validCivil_bounds [OF v]
  obtain y1 y2 y3 y4 where y: "appendInt (c_year c) 4 = [y1, y2, y3, y4]"
      "isDigit y1" "isDigit y2" "isDigit y3" "isDigit y4"
      "digitsVal [y1, y2, y3, y4] = c_year c"
    by (rule four_digit_facts [OF b(1,2)])
  obtain d1 d2 where d: "appendInt (c_day c) 2 = [d1, d2]" "isDigit d1" "isDigit d2"
      "digitVal d1 * 10 + digitVal d2 = c_day c"
      "appendInt (c_day c) 0 = (if c_day c < 10 then [d2] else [d1, d2])"
      "c_day c < 10 \<longrightarrow> digitVal d2 = c_day c"
    by (rule two_digit_facts [OF b(5,6)])
  let ?S = "d1 # d2 # CHR ''-'' # take 3 (longMonthNames ! nat (c_month c - 1))
              @ CHR ''-'' # [y1, y2, y3, y4]"
  have S: "Format ''02-Jan-2006'' c = ?S"
    unfolding Format_def chunks_5 by (simp add: y(1) d(1))
  have T: "TrimSpace ?S = ?S"
    by (rule TrimSpace_id) (simp_all add: d(2) y(5))
  have ny: "\<not> list_all isDigit (take 4 ?S)"
    by (simp add: d(2,3))
  have p1: "Parse ''2006-01-02T15:04:05Z07:00'' ?S = None"
    unfolding Parse_def chunks_1
    by (simp only: year_first_fails [OF ny] option.case)
  have p2: "Parse ''2006-01-02T15:04:05Z'' ?S = None"
    unfolding Parse_def chunks_2
    by (simp only: year_first_fails [OF ny] option.case)
  have p3: "Parse ''2006-01-02 15:04:05'' ?S = None"
    unfolding Parse_def chunks_3
    by (simp only: year_first_fails [OF ny] option.case)
  have p4: "Parse ''2006-01-02'' ?S = None"
    unfolding Parse_def chunks_4
    by (simp only: year_first_fails [OF ny] option.case)
  have m: "1 \<le> c_month c" using b(13) by simp
  have p5: "Parse ''02-Jan-2006'' ?S = Some (civilTime c)"
    unfolding Parse_def chunks_5
    using b(13-16) z
    by (simp add: parse_day_mon_year [OF d(2,3) y(2-5) m b(14)]
        y(6) d(4) finishParse_date civilTime_def
        del: parseChunks.simps parseStd.simps)
  show ?thesis
    by (simp add: parseDate_def S T formats_def p1 p2 p3 p4 p5)
qed

lemma roundtrip_7:
  assumes v: "validCivil c" and z: "c_hour c = 0" "c_min c = 0" "c_sec c = 0" "c_off c = 0"
  shows "parseDate (Format ''2-Jan-2006'' c) = civilTime c"
proof (cases "c_day c < 10")
  case False
  note b = validCivil_bounds [OF v]
  from False b(6) have "Format ''2-Jan-2006'' c = Format ''02-Jan-2006'' c"
    unfolding Format_def chunks_5 chunks_7 by (simp add: appendInt_0_two appendInt_2)
  with roundtrip_5 [OF v z] show ?thesis by simp
next
  case True
  note b = validCivil_bounds [OF v]
  obtain y1 y2 y3 y4 where y: "appendInt (c_year c) 4 = [y1, y2, y3, y4]"
      "isDigit y1" "isDigit y2" "isDigit y3" "isDigit y4"
      "digitsVal [y1, y2, y3, y4] = c_year c"
    by (rule four_digit_facts [OF b(1,2)])
  obtain d1 d2 where d: "appendInt (c_day c) 2 = [d1, d2]" "isDigit d1" "isDigit d2"
      "digitVal d1 * 10 + digitVal d2 = c_day c"
      "appendInt (c_day c) 0 = (if c_day c < 10 then [d2] else [d1, d2])"
      "c_day c < 10 \<longrightarrow> digitVal d2 = c_day c"
    by (rule two_digit_facts [OF b(5,6)])
  from True d(6) have dv: "digitVal d2 = c_day c" by simp
  let ?S = "d2 # CHR ''-'' # take 3 (longMonthNames ! nat (c_month c - 1))
              @ CHR ''-'' # [y1, y2, y3, y4]"
  have S: "Format ''2-Jan-2006'' c = ?S"
    unfolding Format_def chunks_7 by (simp add: y(1) d(5) True)
  have T: "TrimSpace ?S = ?S"
    by (rule TrimSpace_id) (simp_all add: d(3) y(5))
  have ny: "\<not> list_all isDigit (take 4 ?S)"
    by (simp add: d(3))
  have p1: "Parse ''2006-01-02T15:04:05Z07:00'' ?S = None"
    unfolding Parse_def chunks_1
    by (simp only: year_first_fails [OF ny] option.case)
  have p2: "Parse ''2006-01-02T15:04:05Z'' ?S = None"
    unfolding Parse_def chunks_2
    by (simp only: year_first_fails [OF ny] option.case)
  have p3: "Parse ''2006-01-02 15:04:05'' ?S = None"
    unfolding Parse_def chunks_3
    by (simp only: year_first_fails [OF ny] option.case)
  have p4: "Parse ''2006-01-02'' ?S = None"
    unfolding Parse_def chunks_4
    by (simp only: year_first_fails [OF ny] option.case)
  have p5: "Parse ''02-Jan-2006'' ?S = None"
    unfolding Parse_def chunks_5
    by (simp only: zero_day_fails_one_digit [OF d(3)] option.case)
  have p6: "Parse ''January 02 2006'' ?S = None"
    unfolding Parse_def chunks_6
    by (simp only: long_month_fails_digit [OF d(3)] option.case)
  have m: "1 \<le> c_month c" using b(13) by simp
  have p7: "Parse ''2-Jan-2006'' ?S = Some (civilTime c)"
    unfolding Parse_def chunks_7
    using b(13-16) z
    by (simp add: parse_d_mon_year [OF d(3) y(2-5) m b(14)]
        y(6) dv finishParse_date civilTime_def
        del: parseChunks.simps parseStd.simps)
  show ?thesis
    by (simp add: parseDate_def S T formats_def p1 p2 p3 p4 p5 p6 p7)
qed

lemma roundtrip_6:
  assumes v: "validCivil c" and z: "c_hour c = 0" "c_min c = 0" "c_sec c = 0" "c_off c = 0"
  shows "parseDate (Format ''January 02 2006'' c) = civilTime c"
proof -
  note b = validCivil_bounds [OF v]
  obtain y1 y2 y3 y4 where y: "appendInt (c_year c) 4 = [y1, y2, y3, y4]"
      "isDigit y1" "isDigit y2" "isDigit y3" "isDigit y4"
      "digitsVal [y1, y2, y3, y4] = c_year c"
    by (rule four_digit_facts [OF b(1,2)])
  obtain d1 d2 where d: "appendInt (c_day c) 2 = [d1, d2]" "isDigit d1" "isDigit d2"
      "digitVal d1 * 10 + digitVal d2 = c_day c"
      "appendInt (c_day c) 0 = (if c_day c < 10 then [d2] else [d1, d2])"
      "c_day c < 10 \<longrightarrow> digitVal d2 = c_day c"
    by (rule two_digit_facts [OF b(5,6)])
  obtain a r where n: "longMonthNames ! nat (c_month c - 1) = a # r" "\<not> isDigit a"
      "\<not> isSpace a" "take 3 (longMonthNames ! nat (c_month c - 1)) = a # take 2 r"
    using month_name_letter [of "c_month c"] b(13,14) by auto
  let ?R = "CHR '' '' # d1 # d2 # CHR '' '' # [y1, y2, y3, y4]"
  let ?S = "a # r @ ?R"
  have eq: "longMonthNames ! nat (c_month c - 1) @ ?R = ?S" by (simp add: n(1))
  have S: "Format ''January 02 2006'' c = ?S"
    unfolding Format_def chunks_6 by (simp add: y(1) d(1) n(1))
  have T: "TrimSpace ?S = ?S"
    by (rule TrimSpace_id) (simp_all add: n(3) y(5))
  have ny: "\<not> list_all isDigit (take 4 ?S)"
    by (simp add: n(2))
  have p1: "Parse ''2006-01-02T15:04:05Z07:00'' ?S = None"
    unfolding Parse_def chunks_1
    by (simp only: year_first_fails [OF ny] option.case)
  have p2: "Parse ''2006-01-02T15:04:05Z'' ?S = None"
    unfolding Parse_def chunks_2
    by (simp only: year_first_fails [OF ny] option.case)
  have p3: "Parse ''2006-01-02 15:04:05'' ?S = None"
    unfolding Parse_def chunks_3
    by (simp only: year_first_fails [OF ny] option.case)
  have p4: "Parse ''2006-01-02'' ?S = None"
    unfolding Parse_def chunks_4
    by (simp only: year_first_fails [OF ny] option.case)
  have p5: "Parse ''02-Jan-2006'' ?S = None"
    unfolding Parse_def chunks_5
    by (simp only: zero_day_fails_letter [OF n(2)] option.case)
  have m: "1 \<le> c_month c" using b(13) by simp
  have "Parse ''January 02 2006'' (longMonthNames ! nat (c_month c - 1) @ ?R)
      = Some (civilTime c)"
    unfolding Parse_def chunks_6
    using b(13-16) z
    by (simp add: parse_month_day_year [OF d(2,3) y(2-5) m b(14)]
        y(6) d(4) finishParse_date civilTime_def
        del: parseChunks.simps parseStd.simps)
  then have p6: "Parse ''January 02 2006'' ?S = Some (civilTime c)"
    unfolding eq .
  show ?thesis
    by (simp add: parseDate_def S T formats_def p1 p2 p3 p4 p5 p6)
qed

subsection \<open>The order of the layouts and the round trip\<close>

lemma tryFormats_first:
  "k < length fs \<Longrightarrow> \<forall>j<k. Parse (fs ! j) s = None \<Longrightarrow> Parse (fs ! k) s = Some d \<Longrightarrow>
   tryFormats fs s = d"
proof (induction fs arbitrary: k)
  case Nil
  then show ?case by simp
next
  case (Cons f fs)
  show ?case
  proof (cases k)
    case 0
    with Cons.prems show ?thesis by simp
  next
    case (Suc k')
    from Cons.prems(2) Suc have f: "Parse f s = None" by auto
    from Cons.prems(2) Suc have "\<forall>j<k'. Parse (fs ! j) s = None" by auto
    moreover from Cons.prems(1,3) Suc have "k' < length fs" "Parse (fs ! k') s = Some d"
      by simp_all
    ultimately have "tryFormats fs s = d" using Cons.IH by blast
    with f show ?thesis by simp
  qed
qed

text \<open>
  C5: \<open>parseDate\<close> tries the layouts in the order of the list and returns the first
  parse that succeeds. For each layout and each civil time representable in it, the
  text that \<open>Format\<close> prints for the time parses back to the time. In particular
  \<open>2024-03-15T10:00:00Z\<close> parses to 10:00:00 UTC of March 15, 2024, and \<open>15-Mar-2024\<close>
  to 00:00:00 UTC of that day.
\<close>

theorem parseDate_roundtrip:
  "formats = [''2006-01-02T15:04:05Z07:00'', ''2006-01-02T15:04:05Z'',
              ''2006-01-02 15:04:05'', ''2006-01-02'', ''02-Jan-2006'',
              ''January 02 2006'', ''2-Jan-2006'', ''2006/01/02''] \<and>
   (k < length formats \<and> (\<forall>j<k. Parse (formats ! j) (TrimSpace s) = None) \<and>
      Parse (formats ! k) (TrimSpace s) = Some d \<longrightarrow> parseDate s = d) \<and>
   (format \<in> set formats \<and> representable format c \<longrightarrow>
      parseDate (Format format c) = civilTime c) \<and>
   parseDate ''2024-03-15T10:00:00Z'' = Date 2024 3 15 10 0 0 0 0 \<and>
   parseDate ''15-Mar-2024'' = Date 2024 3 15 0 0 0 0 0"
proof (intro conjI impI)
  show "formats = [''2006-01-02T15:04:05Z07:00'', ''2006-01-02T15:04:05Z'',
              ''2006-01-02 15:04:05'', ''2006-01-02'', ''02-Jan-2006'',
              ''January 02 2006'', ''2-Jan-2006'', ''2006/01/02'']"
    by (simp add: formats_def)
next
  assume "k < length formats \<and> (\<forall>j<k. Parse (formats ! j) (TrimSpace s) = None) \<and>
      Parse (formats ! k) (TrimSpace s) = Some d"
  then show "parseDate s = d"
    unfolding parseDate_def by (blast intro: tryFormats_first)
next
  assume a: "format \<in> set formats \<and> representable format c"
  then have r: "representable format c" by simp
  from a have "format \<in> set formats" by (rule conjunct1)
  then have "format = ''2006-01-02T15:04:05Z07:00''
      \<or> format = ''2006-01-02T15:04:05Z''
      \<or> format = ''2006-01-02 15:04:05''
      \<or> format = ''2006-01-02''
      \<or> format = ''02-Jan-2006''
      \<or> format = ''January 02 2006''
      \<or> format = ''2-Jan-2006''
      \<or> format = ''2006/01/02''"
    unfolding formats_def by simp
  then show "parseDate (Format format c) = civilTime c"
  proof (elim disjE)
    assume f: "format = ''2006-01-02T15:04:05Z07:00''"
    from r have "representable ''2006-01-02T15:04:05Z07:00'' c" unfolding f .
    then have "parseDate (Format ''2006-01-02T15:04:05Z07:00'' c) = civilTime c"
      by (simp add: representable_def chunks_1 roundtrip_1)
    then show ?thesis unfolding f .
  next
    assume f: "format = ''2006-01-02T15:04:05Z''"
    from r have "representable ''2006-01-02T15:04:05Z'' c" unfolding f .
    then have "parseDate (Format ''2006-01-02T15:04:05Z'' c) = civilTime c"
      by (simp add: representable_def chunks_2 roundtrip_2)
    then show ?thesis unfolding f .
  next
    assume f: "format = ''2006-01-02 15:04:05''"
    from r have "representable ''2006-01-02 15:04:05'' c" unfolding f .
    then have "parseDate (Format ''2006-01-02 15:04:05'' c) = civilTime c"
      by (simp add: representable_def chunks_3 roundtrip_3)
    then show ?thesis unfolding f .
  next
    assume f: "format = ''2006-01-02''"
    from r have "representable ''2006-01-02'' c" unfolding f .
    then have "parseDate (Format ''2006-01-02'' c) = civilTime c"
      by (simp add: representable_def chunks_4 roundtrip_4)
    then show ?thesis unfolding f .
  next
    assume f: "format = ''02-Jan-2006''"
    from r have "representable ''02-Jan-2006'' c" unfolding f .
    then have "parseDate (Format ''02-Jan-2006'' c) = civilTime c"
      by (simp add: representable_def chunks_5 roundtrip_5)
    then show ?thesis unfolding f .
  next
    assume f: "format = ''January 02 2006''"
    from r have "representable ''January 02 2006'' c" unfolding f .
    then have "parseDate (Format ''January 02 2006'' c) = civilTime c"
      by (simp add: representable_def chunks_6 roundtrip_6)
    then show ?thesis unfolding f .
  next
    assume f: "format = ''2-Jan-2006''"
    from r have "representable ''2-Jan-2006'' c" unfolding f .
    then have "parseDate (Format ''2-Jan-2006'' c) = civilTime c"
      by (simp add: representable_def chunks_7 roundtrip_7)
    then show ?thesis unfolding f .
  next
    assume f: "format = ''2006/01/02''"
    from r have "representable ''2006/01/02'' c" unfolding f .
    then have "parseDate (Format ''2006/01/02'' c) = civilTime c"
      by (simp add: representable_def chunks_8 roundtrip_8)
    then show ?thesis unfolding f .
  qed
next
  show "parseDate ''2024-03-15T10:00:00Z'' = Date 2024 3 15 10 0 0 0 0" by code_simp
next
  show "parseDate ''15-Mar-2024'' = Date 2024 3 15 0 0 0 0 0" by code_simp
qed

theorem parseDate_roundtrip_witness:
  "''02-Jan-2006'' \<in> set formats \<and> validCivil march_15 \<and>
   Format ''02-Jan-2006'' march_15 = ''15-Mar-2024'' \<and>
   parseDate ''15-Mar-2024'' = civilTime march_15 \<and>
   (4::nat) < length formats \<and>
   list_all (\<lambda>j. Parse (formats ! j) (TrimSpace ''15-Mar-2024'') = None) [0, 1, 2, 3] \<and>
   Parse (formats ! 4) (TrimSpace ''15-Mar-2024'') = Some (Date 2024 3 15 0 0 0 0 0) \<and>
   parseDate ''15-Mar-2024'' = Date 2024 3 15 0 0 0 0 0"
proof -
  have m: "''02-Jan-2006'' \<in> set formats" by (simp add: formats_def)
  have r: "representable ''02-Jan-2006'' march_15" unfolding march_15_def by code_simp
  have f: "Format ''02-Jan-2006'' march_15 = ''15-Mar-2024''" unfolding march_15_def by code_simp
  have l: "(4::nat) < length formats" by (simp add: formats_def)
  have n: "list_all (\<lambda>j. Parse (formats ! j) (TrimSpace ''15-Mar-2024'') = None) [0, 1, 2, 3]"
    by code_simp
  have n': "\<forall>j<4. Parse (formats ! j) (TrimSpace ''15-Mar-2024'') = None"
  proof (intro allI impI)
    fix j :: nat assume "j < 4"
    then have "j \<in> set [0, 1, 2, 3]" by auto
    with n show "Parse (formats ! j) (TrimSpace ''15-Mar-2024'') = None"
      unfolding list_all_iff by blast
  qed
  have p: "Parse (formats ! 4) (TrimSpace ''15-Mar-2024'') = Some (Date 2024 3 15 0 0 0 0 0)"
    by code_simp
  note t = parseDate_roundtrip [of 4 "''15-Mar-2024''" "Date 2024 3 15 0 0 0 0 0"
      "''02-Jan-2006''" march_15]
  have vc: "validCivil march_15" unfolding march_15_def by code_simp
  from t m r have "parseDate (Format ''02-Jan-2006'' march_15) = civilTime march_15" by blast
  then have rt: "parseDate ''15-Mar-2024'' = civilTime march_15" unfolding f .
  from t l n' p have fs: "parseDate ''15-Mar-2024'' = Date 2024 3 15 0 0 0 0 0" by blast
  from m vc f rt l n p fs show ?thesis by (intro conjI)
qed

section \<open>Properties of the floating-point model\<close>

lemma roundEven_err: "\<bar>of_int (roundEven y) - y\<bar> \<le> 1 / 2"
proof -
  define r where "r = y - of_int \<lfloor>y\<rfloor>"
  have r: "0 \<le> r" "r < 1" unfolding r_def by linarith+
  consider "r < 1 / 2" | "1 / 2 < r" | "r = 1 / 2" by linarith
  then show ?thesis
  proof cases
    case 1
    then have "roundEven y = \<lfloor>y\<rfloor>" by (simp add: roundEven_def Let_def r_def)
    then have "of_int (roundEven y) - y = - r" unfolding r_def by simp
    with r 1 show ?thesis by simp
  next
    case 2
    then have "roundEven y = \<lfloor>y\<rfloor> + 1" by (simp add: roundEven_def Let_def r_def)
    then have "of_int (roundEven y) - y = 1 - r" unfolding r_def by simp
    with r 2 show ?thesis by simp
  next
    case 3
    then have "roundEven y = \<lfloor>y\<rfloor> \<or> roundEven y = \<lfloor>y\<rfloor> + 1"
      by (simp add: roundEven_def Let_def r_def)
    then have "of_int (roundEven y) - y = - r \<or> of_int (roundEven y) - y = 1 - r"
      unfolding r_def by auto
    with 3 show ?thesis by auto
  qed
qed

lemma roundEven_nonneg: "0 \<le> y \<Longrightarrow> 0 \<le> roundEven y"
  by (auto simp: roundEven_def Let_def)

lemma binexp_lower:
  assumes "0 < x"
  shows "2 powi (binexp x) \<le> x"
proof -
  obtain p q where pq: "quotient_of x = (p, q)" by (cases "quotient_of x")
  then have x: "x = of_int p / of_int q" and q: "0 < q"
    by (simp_all add: quotient_of_div quotient_of_denom_pos)
  with assms have p: "0 < p" by (simp add: zero_less_divide_iff)
  from bitlen_bounds [OF p] have bp: "(2::int) ^ nat (bitlen p - 1) \<le> p" by simp
  from bitlen_bounds [OF q] have bq: "q < (2::int) ^ nat (bitlen q)" by simp
  from p have lp: "1 \<le> bitlen p" by (simp add: bitlen_alt_def)
  have nq: "0 \<le> bitlen q" by (rule bitlen_nonneg)
  show ?thesis
  proof (cases "2 powi (bitlen p - bitlen q) \<le> x")
    case True
    then show ?thesis by (simp add: binexp_def pq)
  next
    case False
    have "(2::rat) powi (bitlen p - bitlen q - 1) = 2 powi (bitlen p - 1) / 2 powi (bitlen q)"
      using power_int_diff [of "2::rat" "bitlen p - 1" "bitlen q"] by (simp add: algebra_simps)
    also have "\<dots> = 2 ^ nat (bitlen p - 1) / 2 ^ nat (bitlen q)"
      using lp nq by (simp add: power_int_def)
    also have "\<dots> \<le> of_int p / of_int q"
    proof (rule frac_le)
      show "(0::rat) \<le> of_int p" using p by simp
      have "(of_int ((2::int) ^ nat (bitlen p - 1)) :: rat) \<le> of_int p"
        using bp by (simp only: of_int_le_iff)
      then show "(2::rat) ^ nat (bitlen p - 1) \<le> of_int p" by simp
      show "(0::rat) < of_int q" using q by simp
      have "(of_int q :: rat) \<le> of_int ((2::int) ^ nat (bitlen q))"
        using bq by (simp only: of_int_le_iff)
      then show "(of_int q :: rat) \<le> 2 ^ nat (bitlen q)" by simp
    qed
    also have "\<dots> = x" by (simp add: x)
    finally have le: "2 powi (bitlen p - bitlen q - 1) \<le> x" .
    from False have "binexp x = bitlen p - bitlen q - 1"
      by (simp add: binexp_def pq)
    with le show ?thesis by simp
  qed
qed

lemma float64_err: "\<bar>float64 x - x\<bar> \<le> \<bar>x\<bar> / 2 ^ 53"
proof (cases "x = 0")
  case True
  then show ?thesis by (simp add: float64_def)
next
  case False
  define e where "e = binexp \<bar>x\<bar>"
  define u :: rat where "u = 2 powi (e - 52)"
  define n where "n = roundEven (\<bar>x\<bar> / u)"
  have u: "0 < u" by (simp add: u_def)
  have f: "float64 x = sgn x * (of_int n * u)"
    using False by (simp add: float64_def Let_def n_def u_def e_def)
  have "float64 x - x = sgn x * (of_int n * u - \<bar>x\<bar>)"
    by (simp add: f algebra_simps sgn_mult_abs abs_mult_sgn)
  then have "\<bar>float64 x - x\<bar> = \<bar>of_int n * u - \<bar>x\<bar>\<bar>"
    using False by (simp add: abs_mult abs_sgn_eq)
  also have "of_int n * u - \<bar>x\<bar> = (of_int n - \<bar>x\<bar> / u) * u"
    using u by (simp add: algebra_simps)
  also have "\<bar>\<dots>\<bar> = \<bar>of_int n - \<bar>x\<bar> / u\<bar> * u"
    using u by (simp add: abs_mult)
  also have "\<dots> \<le> 1 / 2 * u"
    using roundEven_err [of "\<bar>x\<bar> / u"] u unfolding n_def by (intro mult_right_mono) simp_all
  also have "1 / 2 * u = 2 powi e / 2 ^ 53"
  proof -
    have "(2::rat) powi (e - 52) = 2 powi e / 2 powi 52"
      by (rule power_int_diff) simp
    then show ?thesis by (simp add: u_def)
  qed
  also have "\<dots> \<le> \<bar>x\<bar> / 2 ^ 53"
    using binexp_lower [of "\<bar>x\<bar>"] False by (simp add: e_def divide_right_mono)
  finally show ?thesis .
qed

lemma float64_nonneg: "0 \<le> x \<Longrightarrow> 0 \<le> float64 x"
  by (auto simp: float64_def Let_def sgn_if intro!: mult_nonneg_nonneg roundEven_nonneg)

lemma float64_minus: "float64 (- x) = - float64 x"
  by (simp add: float64_def Let_def sgn_minus)

lemma float64_upper:
  assumes "0 \<le> x"
  shows "float64 x \<le> x * (1 + 1 / 2 ^ 53)"
proof -
  have "float64 x - x \<le> \<bar>float64 x - x\<bar>" by (rule abs_ge_self)
  also have "\<dots> \<le> \<bar>x\<bar> / 2 ^ 53" by (rule float64_err)
  finally have d: "float64 x - x \<le> x / 2 ^ 53" using assms by simp
  have e: "x * (1 + 1 / 2 ^ 53) = x + x / 2 ^ 53" by (simp add: algebra_simps)
  show ?thesis unfolding e using d by linarith
qed

lemma float64_upper_bound:
  assumes "0 \<le> x" "x \<le> c" "e = 1 + 1 / 2 ^ 53"
  shows "float64 x \<le> c * e"
proof -
  have "float64 x \<le> x * (1 + 1 / 2 ^ 53)" using assms(1) by (rule float64_upper)
  also have "\<dots> \<le> c * (1 + 1 / 2 ^ 53)" using assms(2) by (intro mult_right_mono) simp_all
  finally show ?thesis unfolding assms(3) .
qed

section \<open>Properties of the days until expiry\<close>

lemma float64_constants:
  "float64 24 = 24" "float64 (60 * 60 * 1000000000) = 3600000000000"
  "float64 3600000000000 = 3600000000000"
  by code_simp+

lemma toInt_minus: "toInt (- x) = - toInt x"
  by (cases "x = 0") (auto simp: toInt_def ceiling_def)

lemma quo_minus: "quo (- a) b = - quo a b"
  by (simp add: quo_def sgn_minus)

lemma rem_minus: "rem (- a) b = - rem a b"
  by (simp add: rem_def quo_minus)

lemma rem_nonneg: "0 \<le> a \<Longrightarrow> 0 < b \<Longrightarrow> rem a b = a mod b"
  by (simp add: rem_def quo_nonneg minus_mult_div_eq_mod)

lemma Hours_minus: "Hours (- d) = - Hours d"
proof -
  define a where "a = float64 (of_int (quo d Hour))"
  define b where "b = float64 (float64 (of_int (rem d Hour)) / float64 (60 * 60 * 1000000000))"
  have "Hours (- d) = float64 (- a + - b)"
    by (simp add: Hours_def Let_def quo_minus rem_minus float64_minus a_def b_def)
  also have "- a + - b = - (a + b)" by simp
  also have "float64 (- (a + b)) = - float64 (a + b)" by (rule float64_minus)
  also have "float64 (a + b) = Hours d" by (simp add: Hours_def Let_def a_def b_def)
  finally show ?thesis .
qed

lemma daysOf_minus: "daysOf (- d) = - daysOf d"
  by (simp add: daysOf_def Hours_minus float64_minus toInt_minus float64_constants)

lemma Hours_nonneg:
  assumes "0 \<le> d"
  shows "0 \<le> Hours d"
proof -
  have h: "0 \<le> quo d Hour" "0 \<le> rem d Hour"
    using assms by (simp_all add: quo_nonneg rem_nonneg Hour_def Second_def)
  have "0 \<le> float64 (of_int (rem d Hour)) / float64 (60 * 60 * 1000000000)"
    using h(2) float64_nonneg [of "of_int (rem d Hour)"] by (simp add: float64_constants)
  then have "0 \<le> float64 (float64 (of_int (rem d Hour)) / float64 (60 * 60 * 1000000000))"
    by (rule float64_nonneg)
  moreover have "0 \<le> float64 (of_int (quo d Hour))"
    by (rule float64_nonneg) (use h(1) in simp)
  ultimately have "0 \<le> float64 (of_int (quo d Hour))
      + float64 (float64 (of_int (rem d Hour)) / float64 (60 * 60 * 1000000000))"
    by simp
  then show ?thesis
    unfolding Hours_def Let_def by (rule float64_nonneg)
qed

lemma daysOf_nonneg:
  assumes "0 \<le> d"
  shows "0 \<le> daysOf d"
proof -
  have "0 \<le> Hours d / float64 24"
    using Hours_nonneg [OF assms] by (simp add: float64_constants)
  then have "0 \<le> float64 (Hours d / float64 24)" by (rule float64_nonneg)
  then show ?thesis by (simp add: daysOf_def toInt_def)
qed

lemma daysOf_nonpos: "d \<le> 0 \<Longrightarrow> daysOf d \<le> 0"
  using daysOf_nonneg [of "- d"] by (simp add: daysOf_minus)

lemma daysOf_within_a_day:
  assumes "0 \<le> d" "d < 24 * Hour"
  shows "daysOf d = 0"
proof -
  define eps :: rat where "eps = 1 + 1 / 2 ^ 53"
  note ub = float64_upper_bound [OF _ _ eps_def]
  have hq: "0 \<le> quo d Hour" "quo d Hour \<le> 23"
    using assms by (simp_all add: quo_nonneg Hour_def Second_def)
  have hr: "0 \<le> rem d Hour" "rem d Hour \<le> 3599999999999"
    using assms by (simp_all add: rem_nonneg Hour_def Second_def)
  have a: "float64 (of_int (quo d Hour)) \<le> 23 * eps"
    by (rule ub) (use hq in simp_all)
  have a0: "0 \<le> float64 (of_int (quo d Hour))"
    by (rule float64_nonneg) (use hq in simp)
  have b: "float64 (of_int (rem d Hour)) \<le> 3599999999999 * eps"
    by (rule ub) (use hr in simp_all)
  have b0: "0 \<le> float64 (of_int (rem d Hour))"
    by (rule float64_nonneg) (use hr in simp)
  define r where "r = float64 (of_int (rem d Hour)) / float64 (60 * 60 * 1000000000)"
  have r0: "0 \<le> r" using b0 by (simp add: r_def float64_constants)
  have r: "r \<le> 3599999999999 * eps / 3600000000000"
    using b by (simp add: r_def float64_constants divide_right_mono)
  have c: "float64 r \<le> 3599999999999 * eps / 3600000000000 * eps"
    using r0 r by (rule ub)
  have c0: "0 \<le> float64 r" using r0 by (rule float64_nonneg)
  define s where "s = float64 (of_int (quo d Hour)) + float64 r"
  have s0: "0 \<le> s" using a0 c0 by (simp add: s_def)
  have s: "s \<le> 23 * eps + 3599999999999 * eps / 3600000000000 * eps"
    unfolding s_def using a c by (rule add_mono)
  have H: "Hours d = float64 s"
    by (simp add: Hours_def Let_def s_def r_def)
  have h0: "0 \<le> Hours d" unfolding H using s0 by (rule float64_nonneg)
  have h: "Hours d \<le> (23 * eps + 3599999999999 * eps / 3600000000000 * eps) * eps"
    unfolding H using s0 s by (rule ub)
  define q where "q = Hours d / float64 24"
  have q0: "0 \<le> q" using h0 by (simp add: q_def float64_constants)
  have q: "q \<le> (23 * eps + 3599999999999 * eps / 3600000000000 * eps) * eps / 24"
    using h by (simp add: q_def float64_constants divide_right_mono)
  have D0: "0 \<le> float64 q" using q0 by (rule float64_nonneg)
  have D: "float64 q
      \<le> (23 * eps + 3599999999999 * eps / 3600000000000 * eps) * eps / 24 * eps"
    using q0 q by (rule ub)
  have "(23 * eps + 3599999999999 * eps / 3600000000000 * eps) * eps / 24 * eps < 1"
    unfolding eps_def by simp
  with D have "float64 q < 1" by simp
  with D0 have "\<lfloor>float64 q\<rfloor> = 0" by linarith
  with D0 show ?thesis by (simp add: daysOf_def toInt_def q_def)
qed

lemma daysOf_small: "\<bar>d\<bar> < 24 * Hour \<Longrightarrow> daysOf d = 0"
proof (cases "0 \<le> d")
  case True
  assume "\<bar>d\<bar> < 24 * Hour"
  with True show ?thesis by (simp add: daysOf_within_a_day)
next
  case False
  assume "\<bar>d\<bar> < 24 * Hour"
  with False have "daysOf (- d) = 0" by (intro daysOf_within_a_day) simp_all
  then show ?thesis by (simp add: daysOf_minus)
qed

lemma Sub_sign:
  assumes "0 \<le> nsec t" "nsec t < 1000000000" "0 \<le> nsec u" "nsec u < 1000000000"
  shows "Before t u \<Longrightarrow> Sub t u < 0" "After t u \<Longrightarrow> 0 < Sub t u"
proof -
  assume "Before t u"
  then consider "sec t - sec u \<le> - 1" | "sec t - sec u = 0" "nsec t < nsec u"
    unfolding Before_def by auto
  then have "(sec t - sec u) * 1000000000 + (nsec t - nsec u) < 0"
  proof cases
    case 1
    then have "(sec t - sec u) * 1000000000 \<le> - 1 * 1000000000"
      by (intro mult_right_mono) simp_all
    with assms show ?thesis by linarith
  next
    case 2
    then show ?thesis by simp
  qed
  then show "Sub t u < 0"
    by (simp add: Sub_def Let_def Second_def maxDuration_def minDuration_def)
next
  assume "After t u"
  then consider "1 \<le> sec t - sec u" | "sec t - sec u = 0" "nsec u < nsec t"
    unfolding After_def by auto
  then have "0 < (sec t - sec u) * 1000000000 + (nsec t - nsec u)"
  proof cases
    case 1
    then have "1 * 1000000000 \<le> (sec t - sec u) * 1000000000"
      by (intro mult_right_mono) simp_all
    with assms show ?thesis by linarith
  next
    case 2
    then show ?thesis by simp
  qed
  then show "0 < Sub t u"
    by (simp add: Sub_def Let_def Second_def maxDuration_def minDuration_def)
qed

text \<open>
  C3, as stated, fails: for a certificate that expired twelve hours ago the floor of the
  difference in days is \<open>- 1\<close>, but \<open>GetSSLInfo\<close> reports 0 days until expiry, which
  is not negative: the conversion \<open>int\<close> discards the fraction, it does not take the floor.
\<close>

theorem days_until_expiry_floor_counterexample:
  "GetSSLInfo serves_expired clock_noon ''example.com'' [] = Inr expired_info \<and>
   S_DaysUntilExpiry expired_info = 0 \<and>
   Before (NotAfter expired_at_midnight) noon \<and>
   spec_daysUntilExpiry (NotAfter expired_at_midnight) noon = - 1"
  by code_simp

text \<open>
  C3, amended: the days until expiry are the hours until \<open>notAfter\<close> divided by 24 in
  floating point and cut to an integer toward zero. They are 0 whenever \<open>notAfter\<close> is
  less than 24 hours from now, before or after; they are not positive when \<open>notAfter\<close>
  is in the past and not negative when it is in the future. The certificate is reported
  valid exactly when the days are positive and now is after \<open>notBefore\<close>; with
  \<open>notAfter\<close> in the past it is reported not valid.
\<close>

theorem GetSSLInfo_validity:
  assumes "GetSSLInfo tls clock domain0 port = Inr info"
    and "0 \<le> nsec (S_NotAfter info)" "nsec (S_NotAfter info) < 1000000000"
    and "0 \<le> nsec (clock 1)" "nsec (clock 1) < 1000000000"
  shows
   "S_DaysUntilExpiry info
      = toInt (float64 (Hours (Until (S_NotAfter info) (clock 1)) / float64 24)) \<and>
    (S_IsValid info \<longleftrightarrow> S_DaysUntilExpiry info > 0 \<and> After (clock 2) (S_NotBefore info)) \<and>
    (Before (S_NotAfter info) (clock 1) \<longrightarrow>
       \<not> S_IsValid info \<and> S_DaysUntilExpiry info \<le> 0) \<and>
    (After (S_NotAfter info) (clock 1) \<longrightarrow> 0 \<le> S_DaysUntilExpiry info) \<and>
    (\<bar>Until (S_NotAfter info) (clock 1)\<bar> < 24 * Hour \<longrightarrow> S_DaysUntilExpiry info = 0)"
proof -
  from assms(1) have d: "S_DaysUntilExpiry info = daysOf (Until (S_NotAfter info) (clock 1))"
    and v: "S_IsValid info \<longleftrightarrow>
              S_DaysUntilExpiry info > 0 \<and> After (clock 2) (S_NotBefore info)"
    by (auto simp: GetSSLInfo_def Let_def daysUntilExpiry_def
        split: if_splits tls_reply.splits list.splits)
  have p: "S_DaysUntilExpiry info \<le> 0" if "Before (S_NotAfter info) (clock 1)"
  proof -
    from that have "Sub (S_NotAfter info) (clock 1) < 0"
      by (rule Sub_sign(1) [OF assms(2-5)])
    then show ?thesis unfolding d Until_def by (intro daysOf_nonpos) simp
  qed
  have n: "0 \<le> S_DaysUntilExpiry info" if "After (S_NotAfter info) (clock 1)"
  proof -
    from that have "0 < Sub (S_NotAfter info) (clock 1)"
      by (rule Sub_sign(2) [OF assms(2-5)])
    then show ?thesis unfolding d Until_def by (intro daysOf_nonneg) simp
  qed
  have z: "S_DaysUntilExpiry info = 0" if "\<bar>Until (S_NotAfter info) (clock 1)\<bar> < 24 * Hour"
    unfolding d using that by (rule daysOf_small)
  from d have "S_DaysUntilExpiry info
      = toInt (float64 (Hours (Until (S_NotAfter info) (clock 1)) / float64 24))"
    by (simp add: daysOf_def)
  with v p n z show ?thesis by auto
qed

theorem GetSSLInfo_validity_witness:
  "GetSSLInfo serves_expired clock_noon ''example.com'' [] = Inr expired_info \<and>
   0 \<le> nsec (S_NotAfter expired_info) \<and> nsec (S_NotAfter expired_info) < 1000000000 \<and>
   0 \<le> nsec (clock_noon 1) \<and> nsec (clock_noon 1) < 1000000000 \<and>
   Before (S_NotAfter expired_info) (clock_noon 1) \<and>
   \<bar>Until (S_NotAfter expired_info) (clock_noon 1)\<bar> < 24 * Hour \<and>
   \<not> S_IsValid expired_info \<and> S_DaysUntilExpiry expired_info \<le> 0 \<and>
   S_DaysUntilExpiry expired_info = 0"
proof -
  have g: "GetSSLInfo serves_expired clock_noon ''example.com'' [] = Inr expired_info"
    by code_simp
  have w: "0 \<le> nsec (S_NotAfter expired_info)" "nsec (S_NotAfter expired_info) < 1000000000"
    "0 \<le> nsec (clock_noon 1)" "nsec (clock_noon 1) < 1000000000"
    by code_simp+
  have b: "Before (S_NotAfter expired_info) (clock_noon 1)" by code_simp
  have u: "\<bar>Until (S_NotAfter expired_info) (clock_noon 1)\<bar> < 24 * Hour" by code_simp
  note t = GetSSLInfo_validity [OF g w]
  from t b have "\<not> S_IsValid expired_info \<and> S_DaysUntilExpiry expired_info \<le> 0" by blast
  moreover from t u have "S_DaysUntilExpiry expired_info = 0" by blast
  ultimately show ?thesis using g w b u by (intro conjI) simp_all
qed

end
